theory Spec2Isabelle
  imports Complex_Main "HOL-Library.AList"
begin

section \<open>Strings as the code uses them\<close>

text \<open>
  JavaScript strings are modelled as HOL strings (lists of characters); a character
  stands for one code unit of an ASCII text, which is what source files and manifests
  are taken to be.  The operations below are the string methods the analysed code
  calls: \<^verbatim>\<open>startsWith\<close>, \<^verbatim>\<open>includes\<close>, \<^verbatim>\<open>split\<close> with a one-character
  separator, \<^verbatim>\<open>join\<close>, and \<^verbatim>\<open>replace\<close> with a string pattern (which replaces
  the first occurrence only).
\<close>

definition newline :: char where
  "newline = CHR 0x0A"

definition startsWith :: "string \<Rightarrow> string \<Rightarrow> bool" where
  "startsWith s p = (take (length p) s = p)"

fun includes_str :: "string \<Rightarrow> string \<Rightarrow> bool" where
  "includes_str [] p = (p = [])"
| "includes_str (x # xs) p = (if startsWith (x # xs) p then True else includes_str xs p)"

text \<open>\<^verbatim>\<open>s.split(c)\<close>: the result is never empty; \<^verbatim>\<open>"".split(c)\<close> is \<^verbatim>\<open>[""]\<close>.\<close>

fun split :: "char \<Rightarrow> string \<Rightarrow> string list" where
  "split c [] = [[]]"
| "split c (x # xs) =
     (if x = c then [] # split c xs
      else (case split c xs of
              [] \<Rightarrow> [[x]]
            | w # ws \<Rightarrow> (x # w) # ws))"

fun join :: "string \<Rightarrow> string list \<Rightarrow> string" where
  "join sep [] = []"
| "join sep [w] = w"
| "join sep (w # v # ws) = w @ sep @ join sep (v # ws)"

text \<open>\<^verbatim>\<open>s.replace(pat, repl)\<close> with a string pattern: the first occurrence only.\<close>

fun replaceFirst :: "string \<Rightarrow> string \<Rightarrow> string \<Rightarrow> string" where
  "replaceFirst pat repl [] = (if pat = [] then repl else [])"
| "replaceFirst pat repl (x # xs) =
     (if startsWith (x # xs) pat then repl @ drop (length pat) (x # xs)
      else x # replaceFirst pat repl xs)"

section \<open>The regular expressions of the source\<close>

text \<open>
  Every quantifier in the regular expressions of \<^verbatim>\<open>fixer.ts\<close> and
  \<^verbatim>\<open>unused-dependencies.ts\<close> stands on a single-character matcher, and none has more
  than one capture group.  A pattern is therefore a list of items, matched by
  backtracking exactly as a JavaScript engine does it: greedy quantifiers try the longer
  match first, the lazy one the shorter.
\<close>

datatype cclass =
    Lit char                \<comment> \<open>a literal character\<close>
  | Space                   \<comment> \<open>\<^verbatim>\<open>\s\<close>\<close>
  | Dot                     \<comment> \<open>\<^verbatim>\<open>.\<close>: anything but a line terminator\<close>
  | OneOf "char list"       \<comment> \<open>\<^verbatim>\<open>[...]\<close>\<close>
  | NoneOf "char list"      \<comment> \<open>\<^verbatim>\<open>[^...]\<close>\<close>

datatype item =
    One cclass              \<comment> \<open>exactly one character\<close>
  | Star cclass             \<comment> \<open>\<^verbatim>\<open>x*\<close>, greedy\<close>
  | Plus cclass             \<comment> \<open>\<^verbatim>\<open>x+\<close>, greedy\<close>
  | LazyStar cclass         \<comment> \<open>\<^verbatim>\<open>x*?\<close>\<close>
  | Opt cclass              \<comment> \<open>\<^verbatim>\<open>x?\<close>, greedy\<close>
  | WordB                   \<comment> \<open>\<^verbatim>\<open>\b\<close>\<close>
  | EndA                    \<comment> \<open>\<^verbatim>\<open>$\<close> (no multiline flag)\<close>
  | GOpen                   \<comment> \<open>\<^verbatim>\<open>(\<close> of the capture group\<close>
  | GClose                  \<comment> \<open>\<^verbatim>\<open>)\<close> of the capture group\<close>

type_synonym regex = "item list"

definition whitespace :: "char list" where
  "whitespace = [CHR '' '', CHR 0x09, CHR 0x0A, CHR 0x0B, CHR 0x0C, CHR 0x0D]"

definition isWordChar :: "char \<Rightarrow> bool" where
  "isWordChar c =
     (c \<in> set ''abcdefghijklmnopqrstuvwxyzABCDEFGHIJKLMNOPQRSTUVWXYZ0123456789_'')"

fun cmatch :: "cclass \<Rightarrow> char \<Rightarrow> bool" where
  "cmatch (Lit c) x = (x = c)"
| "cmatch Space x = (x \<in> set whitespace)"
| "cmatch Dot x = (x \<noteq> CHR 0x0A \<and> x \<noteq> CHR 0x0D)"
| "cmatch (OneOf cs) x = (x \<in> set cs)"
| "cmatch (NoneOf cs) x = (x \<notin> set cs)"

definition lit :: "string \<Rightarrow> regex" where
  "lit s = map (\<lambda>c. One (Lit c)) s"

definition wordBefore :: "char option \<Rightarrow> bool" where
  "wordBefore p = (case p of None \<Rightarrow> False | Some c \<Rightarrow> isWordChar c)"

definition wordAfter :: "string \<Rightarrow> bool" where
  "wordAfter s = (case s of [] \<Rightarrow> False | c # _ \<Rightarrow> isWordChar c)"

definition record_char :: "bool \<Rightarrow> string \<Rightarrow> char \<Rightarrow> string" where
  "record_char rec cap x = (if rec then cap @ [x] else cap)"

text \<open>
  \<open>rmatch r prev rec cap s\<close> matches the pattern \<open>r\<close> at the start of \<open>s\<close>;
  \<open>prev\<close> is the character before \<open>s\<close> (for \<^verbatim>\<open>\b\<close>), \<open>rec\<close> says whether the
  capture group is open and \<open>cap\<close> is what it has captured.  The result is the
  capture and the rest of the input after the match, or \<open>None\<close>.
\<close>

fun rmatch :: "regex \<Rightarrow> char option \<Rightarrow> bool \<Rightarrow> string \<Rightarrow> string \<Rightarrow> (string \<times> string) option" where
  "rmatch [] prev rec cap s = Some (cap, s)"
| "rmatch (One c # r) prev rec cap [] = None"
| "rmatch (One c # r) prev rec cap (x # xs) =
     (if cmatch c x then rmatch r (Some x) rec (record_char rec cap x) xs else None)"
| "rmatch (Star c # r) prev rec cap [] = rmatch r prev rec cap []"
| "rmatch (Star c # r) prev rec cap (x # xs) =
     (if cmatch c x then
        (case rmatch (Star c # r) (Some x) rec (record_char rec cap x) xs of
           Some res \<Rightarrow> Some res
         | None \<Rightarrow> rmatch r prev rec cap (x # xs))
      else rmatch r prev rec cap (x # xs))"
| "rmatch (Plus c # r) prev rec cap [] = None"
| "rmatch (Plus c # r) prev rec cap (x # xs) =
     (if cmatch c x then rmatch (Star c # r) (Some x) rec (record_char rec cap x) xs else None)"
| "rmatch (LazyStar c # r) prev rec cap [] = rmatch r prev rec cap []"
| "rmatch (LazyStar c # r) prev rec cap (x # xs) =
     (case rmatch r prev rec cap (x # xs) of
        Some res \<Rightarrow> Some res
      | None \<Rightarrow>
          (if cmatch c x then rmatch (LazyStar c # r) (Some x) rec (record_char rec cap x) xs
           else None))"
| "rmatch (Opt c # r) prev rec cap [] = rmatch r prev rec cap []"
| "rmatch (Opt c # r) prev rec cap (x # xs) =
     (if cmatch c x then
        (case rmatch r (Some x) rec (record_char rec cap x) xs of
           Some res \<Rightarrow> Some res
         | None \<Rightarrow> rmatch r prev rec cap (x # xs))
      else rmatch r prev rec cap (x # xs))"
| "rmatch (WordB # r) prev rec cap s =
     (if wordBefore prev \<noteq> wordAfter s then rmatch r prev rec cap s else None)"
| "rmatch (EndA # r) prev rec cap s =
     (if s = [] then rmatch r prev rec cap s else None)"
| "rmatch (GOpen # r) prev rec cap s = rmatch r prev True [] s"
| "rmatch (GClose # r) prev rec cap s = rmatch r prev False cap s"

text \<open>
  A scan of the whole input from left to right, as \<^verbatim>\<open>replace\<close> with the \<^verbatim>\<open>g\<close>
  flag and a \<^verbatim>\<open>while ((m = re.exec(s)) !== null)\<close> loop do it: the leftmost match
  first, the next search starting where the match ended (one character further after
  an empty match).  The input is cut into the characters outside any match and the
  matches (each with its capture).
\<close>

datatype seg = Txt char | Match string

fun rsegs :: "regex \<Rightarrow> char option \<Rightarrow> nat \<Rightarrow> string \<Rightarrow> seg list" where
  "rsegs r prev k [] =
     (if k = 0 then (case rmatch r prev False [] [] of
                       Some (cap, rest) \<Rightarrow> [Match cap]
                     | None \<Rightarrow> [])
      else [])"
| "rsegs r prev k (x # xs) =
     (if 0 < k then rsegs r (Some x) (k - 1) xs
      else (case rmatch r prev False [] (x # xs) of
              None \<Rightarrow> Txt x # rsegs r (Some x) 0 xs
            | Some (cap, rest) \<Rightarrow>
                (if length rest = Suc (length xs) then Match cap # Txt x # rsegs r (Some x) 0 xs
                 else Match cap # rsegs r (Some x) (length xs - length rest) xs)))"

text \<open>\<^verbatim>\<open>re.test(s)\<close> / \<^verbatim>\<open>s.match(re) !== null\<close>: is there a match anywhere.\<close>

fun rtest_from :: "regex \<Rightarrow> char option \<Rightarrow> string \<Rightarrow> bool" where
  "rtest_from r prev [] = (rmatch r prev False [] [] \<noteq> None)"
| "rtest_from r prev (x # xs) =
     (if rmatch r prev False [] (x # xs) \<noteq> None then True else rtest_from r (Some x) xs)"

definition rtest :: "regex \<Rightarrow> string \<Rightarrow> bool" where
  "rtest r s = rtest_from r None s"

text \<open>\<^verbatim>\<open>s.replace(re, repl)\<close> with the \<^verbatim>\<open>g\<close> flag (\<open>repl\<close> without \<^verbatim>\<open>$\<close> patterns).\<close>

fun seg_text :: "string \<Rightarrow> seg \<Rightarrow> string" where
  "seg_text repl (Txt c) = [c]"
| "seg_text repl (Match cap) = repl"

definition replaceAll :: "regex \<Rightarrow> string \<Rightarrow> string \<Rightarrow> string" where
  "replaceAll r repl s = concat (map (seg_text repl) (rsegs r None 0 s))"

text \<open>The captures of all matches, in order: what an \<^verbatim>\<open>exec\<close> loop reads as \<^verbatim>\<open>match[1]\<close>.\<close>

fun seg_capture :: "seg \<Rightarrow> string list" where
  "seg_capture (Txt c) = []"
| "seg_capture (Match cap) = [cap]"

definition captures :: "regex \<Rightarrow> string \<Rightarrow> string list" where
  "captures r s = concat (map seg_capture (rsegs r None 0 s))"

section \<open>The data model (\<^verbatim>\<open>types.ts\<close>)\<close>

text \<open>
  Confidences are JavaScript numbers; the code only compares them with the constant
  \<^verbatim>\<open>0.8\<close> and only produces the constants \<^verbatim>\<open>0.95\<close>, \<^verbatim>\<open>0.85\<close> and
  \<^verbatim>\<open>0.75\<close>, so they are modelled as rationals.  Line numbers are integers.
\<close>

record UnusedImport =
  filePath :: string
  line :: int
  column :: int
  importName :: string
  source :: string
  confidence :: rat

datatype DependencyType = dependency | devDependency | peerDependency

record UnusedDependency =
  dep_name :: string
  dep_version :: string
  dep_type :: DependencyType
  dep_confidence :: rat
  dep_reason :: string

text \<open>Of an \<^verbatim>\<open>AnalysisResult\<close> the fixer reads these two fields only.\<close>

record AnalysisResult =
  unusedImports :: "UnusedImport list"
  unusedDependencies :: "UnusedDependency list"

record FixResult =
  success :: bool
  filesModified :: "string list"
  importsRemoved :: nat
  dependenciesRemoved :: "string list"
  errors :: "string list"

section \<open>The file system and the manifest\<close>

text \<open>
  The file system is the only state.  \<open>files\<close> gives the text of each path that can be
  read (\<^verbatim>\<open>readFileSync\<close> throws on the others), \<open>locked\<close> the paths on which
  \<^verbatim>\<open>writeFileSync\<close> throws.  A path exists when it can be read.
\<close>

record filesystem =
  files :: "string \<Rightarrow> string option"
  locked :: "string \<Rightarrow> bool"

definition existsSync :: "filesystem \<Rightarrow> string \<Rightarrow> bool" where
  "existsSync fs p = (files fs p \<noteq> None)"

definition readFileSync :: "filesystem \<Rightarrow> string \<Rightarrow> string option" where
  "readFileSync fs p = files fs p"

definition writeFileSync :: "filesystem \<Rightarrow> string \<Rightarrow> string \<Rightarrow> filesystem option" where
  "writeFileSync fs p text =
     (if locked fs p then None else Some (fs\<lparr>files := (files fs)(p \<mapsto> text)\<rparr>))"

text \<open>
  The manifest as \<^verbatim>\<open>JSON.parse\<close> delivers it: three optional maps from package name
  to version, each in the order of \<^verbatim>\<open>Object.entries\<close>.  \<^verbatim>\<open>JSON.parse\<close> and
  \<^verbatim>\<open>JSON.stringify\<close> themselves are parameters of the functions that call them
  (\<open>None\<close>: \<^verbatim>\<open>JSON.parse\<close> throws).
\<close>

record PackageJson =
  dependencies :: "(string \<times> string) list option"
  devDependencies :: "(string \<times> string) list option"
  peerDependencies :: "(string \<times> string) list option"

type_synonym json_parse = "string \<Rightarrow> PackageJson option"
type_synonym json_stringify = "PackageJson \<Rightarrow> string"

section \<open>The fixer (\<^verbatim>\<open>fixer.ts\<close>)\<close>

record FixerOptions =
  safeMode :: bool
  requireTests :: bool

text \<open>
  The constructor: \<^verbatim>\<open>{safeMode: true, requireTests: false, ...options}\<close>.  \<open>None\<close> is
  an option that is not given; an option given as \<^verbatim>\<open>undefined\<close> replaces the default
  and counts as false, which is \<open>Some False\<close> here.
\<close>

definition AutoFixer :: "bool option \<Rightarrow> bool option \<Rightarrow> FixerOptions" where
  "AutoFixer safe tests =
     \<lparr>safeMode = (case safe of None \<Rightarrow> True | Some b \<Rightarrow> b),
      requireTests = (case tests of None \<Rightarrow> False | Some b \<Rightarrow> b)\<rparr>"

subsection \<open>\<^verbatim>\<open>isOnlyImportOnLine\<close> and \<^verbatim>\<open>removeImportFromLine\<close>\<close>

definition rx_doubled_comma :: regex where      \<comment> \<open>\<^verbatim>\<open>/,\s*,/g\<close>\<close>
  "rx_doubled_comma = [One (Lit (CHR '','')), Star Space, One (Lit (CHR '',''))]"

definition rx_empty_braces_import :: regex where  \<comment> \<open>\<^verbatim>\<open>/import\s+{\s*}\s+from/\<close>\<close>
  "rx_empty_braces_import =
     lit ''import'' @ [Plus Space, One (Lit (CHR ''{'')), Star Space, One (Lit (CHR ''}'')), Plus Space]
     @ lit ''from''"

definition rx_empty_import :: regex where       \<comment> \<open>\<^verbatim>\<open>/import\s+from/\<close>\<close>
  "rx_empty_import = lit ''import'' @ [Plus Space] @ lit ''from''"

definition rx_comma_brace :: regex where        \<comment> \<open>\<^verbatim>\<open>/,\s*}/g\<close>\<close>
  "rx_comma_brace = [One (Lit (CHR '','')), Star Space, One (Lit (CHR ''}''))]"

definition rx_brace_comma :: regex where        \<comment> \<open>\<^verbatim>\<open>/{\s*,/g\<close>\<close>
  "rx_brace_comma = [One (Lit (CHR ''{'')), Star Space, One (Lit (CHR '',''))]"

text \<open>
  \<^verbatim>\<open>new RegExp(`\\b${importName}\\b,?\\s*`, 'g')\<close>.  Import names are JavaScript
  identifiers: letters, digits, \<^verbatim>\<open>_\<close> and \<^verbatim>\<open>$\<close>.  Every such character stands for
  itself in the pattern but \<^verbatim>\<open>$\<close>, which is the end-of-input assertion.
\<close>

definition rx_import_name :: "string \<Rightarrow> regex" where
  "rx_import_name nm =
     [WordB] @ map (\<lambda>c. if c = CHR ''$'' then EndA else One (Lit c)) nm
     @ [WordB, Opt (Lit (CHR '','')), Star Space]"

definition isOnlyImportOnLine :: "string \<Rightarrow> string \<Rightarrow> bool" where
  "isOnlyImportOnLine txt name =
     (let withoutImport = replaceAll rx_doubled_comma '','' (replaceFirst name [] txt)
      in rtest rx_empty_braces_import withoutImport \<or> rtest rx_empty_import withoutImport)"

definition removeImportFromLine :: "string \<Rightarrow> string \<Rightarrow> string" where
  "removeImportFromLine txt name =
     replaceAll rx_doubled_comma '',''
       (replaceAll rx_brace_comma ''{ ''
         (replaceAll rx_comma_brace '' }''
           (replaceAll (rx_import_name name) [] txt)))"

subsection \<open>\<^verbatim>\<open>fixUnusedImports\<close>\<close>

text \<open>
  Grouping by file.  \<open>byFile\<close> is a JavaScript \<^verbatim>\<open>Map\<close>: a new key goes to the end, an
  existing key keeps its place; that is \<^const>\<open>AList.update\<close>.
\<close>

definition skipped_import :: "FixerOptions \<Rightarrow> UnusedImport \<Rightarrow> bool" where
  "skipped_import opts imp = (safeMode opts \<and> confidence imp < 0.8)"

definition group_import :: "FixerOptions \<Rightarrow> UnusedImport \<Rightarrow>
    (string \<times> UnusedImport list) list \<Rightarrow> (string \<times> UnusedImport list) list" where
  "group_import opts imp byFile =
     (if skipped_import opts imp then byFile
      else (let lst = (case map_of byFile (filePath imp) of None \<Rightarrow> [] | Some l \<Rightarrow> l)
            in AList.update (filePath imp) (lst @ [imp]) byFile))"

definition groupByFile :: "FixerOptions \<Rightarrow> UnusedImport list \<Rightarrow> (string \<times> UnusedImport list) list" where
  "groupByFile opts imps = fold (group_import opts) imps []"

text \<open>
  \<^verbatim>\<open>imports.sort((a, b) => b.line - a.line)\<close>: a stable sort, larger line numbers
  first.
\<close>

definition sortedImports :: "UnusedImport list \<Rightarrow> UnusedImport list" where
  "sortedImports imps = sort_key (\<lambda>imp. - line imp) imps"

text \<open>\<^verbatim>\<open>lines.splice(i, 1)\<close>\<close>

definition splice1 :: "nat \<Rightarrow> 'a list \<Rightarrow> 'a list" where
  "splice1 i xs = take i xs @ drop (Suc i) xs"

text \<open>
  One turn of the loop over the sorted findings of a file.  The state is the array of
  lines, the flag \<^verbatim>\<open>modified\<close> and the \<^verbatim>\<open>fixResult\<close> being filled.
\<close>

definition fix_import :: "UnusedImport \<Rightarrow> string list \<times> bool \<times> FixResult \<Rightarrow> string list \<times> bool \<times> FixResult" where
  "fix_import imp st =
     (case st of (lns, modified, fr) \<Rightarrow>
        (let lineIndex = line imp - 1 in
         if 0 \<le> lineIndex \<and> lineIndex < int (length lns) then
           (let txt = lns ! nat lineIndex in
            if includes_str txt (importName imp) \<and> includes_str txt (source imp) then
              (if isOnlyImportOnLine txt (importName imp) then
                 (splice1 (nat lineIndex) lns, True, fr\<lparr>importsRemoved := importsRemoved fr + 1\<rparr>)
               else
                 (let newLine = removeImportFromLine txt (importName imp) in
                  if newLine \<noteq> txt then
                    (lns[nat lineIndex := newLine], True, fr\<lparr>importsRemoved := importsRemoved fr + 1\<rparr>)
                  else st))
            else st)
         else st))"

definition import_error :: "string \<Rightarrow> string" where
  "import_error p = ''Failed to fix imports in '' @ p"

text \<open>
  The body of the loop over the files.  A file that cannot be read, or cannot be
  written, adds an error string and leaves the file system as it was; what the inner
  loop has already counted in \<^verbatim>\<open>importsRemoved\<close> stays counted.
\<close>

definition fix_file :: "string \<times> UnusedImport list \<Rightarrow> filesystem \<times> FixResult \<Rightarrow> filesystem \<times> FixResult" where
  "fix_file entry st =
     (case entry of (p, imps) \<Rightarrow> (case st of (fs, fr) \<Rightarrow>
        (case readFileSync fs p of
           None \<Rightarrow> (fs, fr\<lparr>errors := errors fr @ [import_error p]\<rparr>)
         | Some content \<Rightarrow>
             (case fold fix_import (sortedImports imps) (split newline content, False, fr) of
                (lns, modified, fr') \<Rightarrow>
                  (if modified then
                     (case writeFileSync fs p (join [newline] lns) of
                        None \<Rightarrow> (fs, fr'\<lparr>errors := errors fr' @ [import_error p]\<rparr>)
                      | Some fs' \<Rightarrow> (fs', fr'\<lparr>filesModified := filesModified fr' @ [p]\<rparr>))
                   else (fs, fr'))))))"

definition fixUnusedImports :: "FixerOptions \<Rightarrow> AnalysisResult \<Rightarrow> filesystem \<times> FixResult \<Rightarrow> filesystem \<times> FixResult" where
  "fixUnusedImports opts result st = fold fix_file (groupByFile opts (unusedImports result)) st"

subsection \<open>\<^verbatim>\<open>fixUnusedDependencies\<close>\<close>

text \<open>
  \<^verbatim>\<open>packageJson.dependencies?.[name]\<close> as a condition: the map is there and either it
  has the key with a version that is not the empty string, or it does not have the key
  and the name is one of the properties every object inherits from
  \<^verbatim>\<open>Object.prototype\<close>.  (\<^verbatim>\<open>delete\<close> removes own keys only.)
\<close>

definition object_prototype_keys :: "string list" where
  "object_prototype_keys =
     [''constructor'', ''hasOwnProperty'', ''isPrototypeOf'', ''propertyIsEnumerable'',
      ''toLocaleString'', ''toString'', ''valueOf'', ''__proto__'', ''__defineGetter__'',
      ''__defineSetter__'', ''__lookupGetter__'', ''__lookupSetter__'']"

definition has_entry :: "(string \<times> string) list option \<Rightarrow> string \<Rightarrow> bool" where
  "has_entry m k = (case m of None \<Rightarrow> False
                    | Some al \<Rightarrow> (case map_of al k of
                                   None \<Rightarrow> k \<in> set object_prototype_keys
                                 | Some v \<Rightarrow> v \<noteq> []))"

definition delete_entry :: "(string \<times> string) list option \<Rightarrow> string \<Rightarrow> (string \<times> string) list option" where
  "delete_entry m k = map_option (AList.delete k) m"

definition skipped_dependency :: "FixerOptions \<Rightarrow> UnusedDependency \<Rightarrow> bool" where
  "skipped_dependency opts dep = (safeMode opts \<and> dep_confidence dep < 0.8)"

definition fix_dependency :: "FixerOptions \<Rightarrow> UnusedDependency \<Rightarrow> PackageJson \<times> bool \<times> FixResult \<Rightarrow> PackageJson \<times> bool \<times> FixResult" where
  "fix_dependency opts dep st =
     (case st of (pj, modified, fr) \<Rightarrow>
        (if skipped_dependency opts dep then st
         else if dep_type dep = dependency \<and> has_entry (dependencies pj) (dep_name dep) then
           (pj\<lparr>dependencies := delete_entry (dependencies pj) (dep_name dep)\<rparr>, True,
            fr\<lparr>dependenciesRemoved := dependenciesRemoved fr @ [dep_name dep]\<rparr>)
         else if dep_type dep = devDependency \<and> has_entry (devDependencies pj) (dep_name dep) then
           (pj\<lparr>devDependencies := delete_entry (devDependencies pj) (dep_name dep)\<rparr>, True,
            fr\<lparr>dependenciesRemoved := dependenciesRemoved fr @ [dep_name dep]\<rparr>)
         else st))"

definition dependency_error :: string where
  "dependency_error = ''Failed to fix dependencies in package.json''"

text \<open>
  \<open>manifest\<close> is the path \<^verbatim>\<open>path.join(process.cwd(), 'package.json')\<close>.
\<close>

definition fixUnusedDependencies :: "FixerOptions \<Rightarrow> json_parse \<Rightarrow> json_stringify \<Rightarrow> string \<Rightarrow>
    AnalysisResult \<Rightarrow> filesystem \<times> FixResult \<Rightarrow> filesystem \<times> FixResult" where
  "fixUnusedDependencies opts parse stringify manifest result st =
     (case st of (fs, fr) \<Rightarrow>
        (case readFileSync fs manifest of
           None \<Rightarrow> (fs, fr\<lparr>errors := errors fr @ [dependency_error]\<rparr>)
         | Some content \<Rightarrow>
             (case parse content of
                None \<Rightarrow> (fs, fr\<lparr>errors := errors fr @ [dependency_error]\<rparr>)
              | Some packageJson \<Rightarrow>
                  (case fold (fix_dependency opts) (unusedDependencies result) (packageJson, False, fr) of
                     (pj, modified, fr') \<Rightarrow>
                       (if modified then
                          (case writeFileSync fs manifest (stringify pj @ [newline]) of
                             None \<Rightarrow> (fs, fr'\<lparr>errors := errors fr' @ [dependency_error]\<rparr>)
                           | Some fs' \<Rightarrow> (fs', fr'\<lparr>filesModified := filesModified fr' @ [manifest]\<rparr>))
                        else (fs, fr'))))))"

subsection \<open>\<^verbatim>\<open>runTests\<close>, \<^verbatim>\<open>rollback\<close> and \<^verbatim>\<open>fix\<close>\<close>

text \<open>
  The test runner is the external collaborator of the fixer: \<open>fixer_fix\<close> (the method
  \<^verbatim>\<open>AutoFixer.fix\<close>) takes its verdict on the file system it is run on as a parameter.  The body shipped in \<^verbatim>\<open>fixer.ts\<close>
  is the constant below.
\<close>

definition runTests :: "filesystem \<Rightarrow> bool" where
  "runTests fs = True"

text \<open>\<^verbatim>\<open>rollback\<close> logs a warning and touches no file.\<close>

definition rollback :: "string list \<Rightarrow> filesystem \<Rightarrow> filesystem" where
  "rollback paths fs = fs"

definition tests_failed :: string where
  "tests_failed = ''Tests failed after cleanup''"

definition fixResult0 :: FixResult where
  "fixResult0 = \<lparr>success = True, filesModified = [], importsRemoved = 0,
                 dependenciesRemoved = [], errors = []\<rparr>"

definition fixer_fix :: "FixerOptions \<Rightarrow> json_parse \<Rightarrow> json_stringify \<Rightarrow> string \<Rightarrow> (filesystem \<Rightarrow> bool) \<Rightarrow>
    AnalysisResult \<Rightarrow> filesystem \<Rightarrow> filesystem \<times> FixResult" where
  "fixer_fix opts parse stringify manifest tests result fs0 =
     (case fixUnusedDependencies opts parse stringify manifest result
             (fixUnusedImports opts result (fs0, fixResult0)) of
        (fs, fr) \<Rightarrow>
          (if requireTests opts \<and> 0 < length (filesModified fr) then
             (if \<not> tests fs then
                (let fr' = fr\<lparr>success := False, errors := errors fr @ [tests_failed]\<rparr>
                 in (rollback (filesModified fr') fs, fr'))
              else (fs, fr))
           else (fs, fr)))"

section \<open>The unused-dependencies detector (\<^verbatim>\<open>detectors/unused-dependencies.ts\<close>)\<close>

definition quotes :: "char list" where
  "quotes = [CHR 0x27, CHR 0x22]"

definition rx_es6_import :: regex where   \<comment> \<open>\<^verbatim>\<open>/import\s+.*?\s+from\s+['"]([^'"]+)['"]/g\<close>\<close>
  "rx_es6_import =
     lit ''import'' @ [Plus Space, LazyStar Dot, Plus Space] @ lit ''from''
     @ [Plus Space, One (OneOf quotes), GOpen, Plus (NoneOf quotes), GClose, One (OneOf quotes)]"

definition rx_require :: regex where      \<comment> \<open>\<^verbatim>\<open>/require\s*\(\s*['"]([^'"]+)['"]\s*\)/g\<close>\<close>
  "rx_require =
     lit ''require'' @ [Star Space, One (Lit (CHR ''('')), Star Space, One (OneOf quotes),
       GOpen, Plus (NoneOf quotes), GClose, One (OneOf quotes), Star Space, One (Lit (CHR '')''))]"

definition rx_dynamic_import :: regex where   \<comment> \<open>\<^verbatim>\<open>/import\s*\(\s*['"]([^'"]+)['"]\s*\)/g\<close>\<close>
  "rx_dynamic_import =
     lit ''import'' @ [Star Space, One (Lit (CHR ''('')), Star Space, One (OneOf quotes),
       GOpen, Plus (NoneOf quotes), GClose, One (OneOf quotes), Star Space, One (Lit (CHR '')''))]"

definition extractPackageName :: "string \<Rightarrow> string option" where
  "extractPackageName importPath =
     (if startsWith importPath ''.'' \<or> startsWith importPath ''/'' then None
      else if startsWith importPath ''@'' then
        (let parts = split (CHR ''/'') importPath in
         if 2 \<le> length parts then Some (parts ! 0 @ ''/'' @ parts ! 1)
         else Some (hd parts))
      else Some (hd (split (CHR ''/'') importPath)))"

text \<open>
  \<open>usedPackages\<close> is a JavaScript \<^verbatim>\<open>Set\<close>: a list without repetitions, in insertion
  order.
\<close>

definition set_add :: "string \<Rightarrow> string list \<Rightarrow> string list" where
  "set_add x xs = (if x \<in> set xs then xs else xs @ [x])"

text \<open>
  The body of each of the three \<^verbatim>\<open>exec\<close> loops; \<^verbatim>\<open>if (packageName)\<close> rejects
  \<^verbatim>\<open>null\<close> and the empty string.
\<close>

definition add_import_path :: "string \<Rightarrow> string list \<Rightarrow> string list" where
  "add_import_path importPath usedPackages =
     (case extractPackageName importPath of
        None \<Rightarrow> usedPackages
      | Some packageName \<Rightarrow> if packageName = [] then usedPackages else set_add packageName usedPackages)"

definition extractImports :: "string \<Rightarrow> string list \<Rightarrow> string list" where
  "extractImports content usedPackages =
     fold add_import_path (captures rx_dynamic_import content)
       (fold add_import_path (captures rx_require content)
         (fold add_import_path (captures rx_es6_import content) usedPackages))"

definition isPackageUsed :: "string \<Rightarrow> string list \<Rightarrow> bool" where
  "isPackageUsed packageName usedPackages =
     (if packageName \<in> set usedPackages then True
      else if CHR ''/'' \<in> set packageName then
        (let basePackage = hd (split (CHR ''/'') packageName)
         in list_ex (\<lambda>used. startsWith used (basePackage @ ''/'')) usedPackages)
      else False)"

definition knownTools :: "string list" where
  "knownTools = [''typescript'', ''eslint'', ''prettier'', ''webpack'', ''vite'', ''rollup'',
     ''jest'', ''vitest'', ''mocha'', ''chai'', ''@types/'', ''ts-node'', ''nodemon'', ''rimraf'',
     ''cross-env'']"

definition isKnownToolPackage :: "string \<Rightarrow> bool" where
  "isKnownToolPackage nm = list_ex (\<lambda>tool. startsWith nm tool \<or> nm = tool) knownTools"

text \<open>The body of the scan loop: a file that cannot be read is passed over.\<close>

definition scan_file :: "filesystem \<Rightarrow> string \<Rightarrow> string list \<Rightarrow> string list" where
  "scan_file fs f usedPackages =
     (case readFileSync fs f of
        None \<Rightarrow> usedPackages
      | Some content \<Rightarrow> extractImports content usedPackages)"

definition scan_files :: "filesystem \<Rightarrow> string list \<Rightarrow> string list" where
  "scan_files fs allFiles = fold (scan_file fs) allFiles []"

definition not_imported :: string where
  "not_imported = ''Not imported in any source file''"

definition dependency_finding :: "string \<times> string \<Rightarrow> UnusedDependency" where
  "dependency_finding e = \<lparr>dep_name = fst e, dep_version = snd e, dep_type = dependency,
     dep_confidence = 0.85, dep_reason = not_imported\<rparr>"

definition devDependency_finding :: "string \<times> string \<Rightarrow> UnusedDependency" where
  "devDependency_finding e = \<lparr>dep_name = fst e, dep_version = snd e, dep_type = devDependency,
     dep_confidence = 0.75, dep_reason = not_imported\<rparr>"

definition unused_in :: "string list \<Rightarrow> (string \<times> string) list \<Rightarrow> UnusedDependency list" where
  "unused_in usedPackages deps =
     map dependency_finding (filter (\<lambda>e. \<not> isPackageUsed (fst e) usedPackages) deps)"

definition unused_dev_in :: "string list \<Rightarrow> (string \<times> string) list \<Rightarrow> UnusedDependency list" where
  "unused_dev_in usedPackages deps =
     map devDependency_finding
       (filter (\<lambda>e. \<not> isKnownToolPackage (fst e) \<and> \<not> isPackageUsed (fst e) usedPackages) deps)"

datatype error = Error string | SyntaxError

definition or_empty :: "(string \<times> string) list option \<Rightarrow> (string \<times> string) list" where
  "or_empty m = (case m of None \<Rightarrow> [] | Some al \<Rightarrow> al)"

text \<open>
  \<open>manifest\<close> is \<^verbatim>\<open>path.join(projectRoot, 'package.json')\<close>; \<open>allFiles\<close> is what the
  two \<^verbatim>\<open>fast-glob\<close> calls return, \<^verbatim>\<open>[...files, ...configFiles]\<close>.  The result is
  \<open>Inl\<close> when the promise is rejected: the manifest is absent, or reading it or
  \<^verbatim>\<open>JSON.parse\<close> throws.
\<close>

definition detect :: "json_parse \<Rightarrow> string \<Rightarrow> string list \<Rightarrow> filesystem \<Rightarrow> error + UnusedDependency list" where
  "detect parse manifest allFiles fs =
     (if \<not> existsSync fs manifest then Inl (Error ''package.json not found'')
      else (case readFileSync fs manifest of
              None \<Rightarrow> Inl (Error ''ENOENT'')
            | Some content \<Rightarrow>
                (case parse content of
                   None \<Rightarrow> Inl SyntaxError
                 | Some packageJson \<Rightarrow>
                     (let usedPackages = scan_files fs allFiles
                      in Inr (unused_in usedPackages (or_empty (dependencies packageJson))
                              @ unused_dev_in usedPackages (or_empty (devDependencies packageJson)))))))"

section \<open>The parser and the symbol model (\<^verbatim>\<open>parser.ts\<close>)\<close>

text \<open>
  The syntax tree is Babel's.  The node kinds the visitors of \<^verbatim>\<open>parseCode\<close> tell apart
  have a constructor each, with their children in the order of Babel's traversal (its
  \<^verbatim>\<open>VISITOR_KEYS\<close>): an \<open>Identifier\<close> has its name and, as children, its type
  annotation and its decorators; an \<open>ImportDeclaration\<close> its specifiers, its source and
  its attributes; an \<open>ObjectProperty\<close> its key, its value, the flag \<^verbatim>\<open>computed\<close> and
  its decorators.  A \<open>JSXIdentifier\<close> is a name inside a JSX tag; no visitor looks at
  it.  Every other kind is a \<open>Node\<close> with its type and its children in traversal
  order.  A location is the pair (line, column) of \<^verbatim>\<open>loc.start\<close>.
\<close>

datatype specifier =
    ImportDefaultSpecifier string "(int \<times> int) option"
  | ImportNamespaceSpecifier string "(int \<times> int) option"
  | ImportSpecifier string string "(int \<times> int) option"   \<comment> \<open>imported, local\<close>

datatype node =
    Identifier string "node list"                        \<comment> \<open>name; type annotation, decorators\<close>
  | JSXIdentifier string
  | ImportDeclaration "specifier list" string "node list"  \<comment> \<open>specifiers, source, attributes\<close>
  | ObjectProperty node node bool "node list"            \<comment> \<open>key, value, computed, decorators\<close>
  | MemberExpression node node bool                      \<comment> \<open>object, property, computed\<close>
  | JSXElement "node list"
  | JSXFragment "node list"
  | Node string "node list"

record ImportInfo =
  imp_name :: string
  imp_source :: string
  imp_line :: int
  imp_column :: int
  isDefault :: bool
  isNamespace :: bool

text \<open>
  \<^verbatim>\<open>FileAnalysis\<close> without its \<^verbatim>\<open>exports\<close>, which \<^verbatim>\<open>findUnusedImports\<close> does not read
  (export declarations are \<open>Node\<close>s here).  \<open>usedIdentifiers\<close> is a \<^verbatim>\<open>Set\<close>.
\<close>

record FileAnalysis =
  importInfos :: "ImportInfo list"
  usedIdentifiers :: "string list"
  hasJSX :: bool

fun local_name :: "specifier \<Rightarrow> string" where
  "local_name (ImportDefaultSpecifier n l) = n"
| "local_name (ImportNamespaceSpecifier n l) = n"
| "local_name (ImportSpecifier i n l) = n"

fun spec_loc :: "specifier \<Rightarrow> (int \<times> int) option" where
  "spec_loc (ImportDefaultSpecifier n l) = l"
| "spec_loc (ImportNamespaceSpecifier n l) = l"
| "spec_loc (ImportSpecifier i n l) = l"

fun is_default :: "specifier \<Rightarrow> bool" where
  "is_default (ImportDefaultSpecifier n l) = True"
| "is_default _ = False"

fun is_namespace :: "specifier \<Rightarrow> bool" where
  "is_namespace (ImportNamespaceSpecifier n l) = True"
| "is_namespace _ = False"

text \<open>The \<^verbatim>\<open>ImportDeclaration\<close> visitor, for one specifier.\<close>

definition import_info :: "string \<Rightarrow> specifier \<Rightarrow> ImportInfo list" where
  "import_info src sp =
     (if local_name sp \<noteq> [] then
        [\<lparr>imp_name = local_name sp, imp_source = src,
          imp_line = (case spec_loc sp of None \<Rightarrow> 0 | Some (l, c) \<Rightarrow> l),
          imp_column = (case spec_loc sp of None \<Rightarrow> 0 | Some (l, c) \<Rightarrow> c),
          isDefault = is_default sp, isNamespace = is_namespace sp\<rparr>]
      else [])"

text \<open>
  The \<^verbatim>\<open>Identifier\<close> visitor.  What it asks of \<^verbatim>\<open>path.parent\<close> is whether it is an
  import specifier, and whether it is an object property of which the identifier is the
  key (with the property's \<^verbatim>\<open>computed\<close> flag).
\<close>

datatype parent = SpecifierParent | PropertyKeyOf bool | OtherParent

fun identifier_visitor :: "parent \<Rightarrow> string \<Rightarrow> FileAnalysis \<Rightarrow> FileAnalysis" where
  "identifier_visitor SpecifierParent n a = a"
| "identifier_visitor (PropertyKeyOf computed) n a =
     (if \<not> computed then a else a\<lparr>usedIdentifiers := set_add n (usedIdentifiers a)\<rparr>)"
| "identifier_visitor OtherParent n a = a\<lparr>usedIdentifiers := set_add n (usedIdentifiers a)\<rparr>"

text \<open>The identifiers below a specifier: \<^verbatim>\<open>imported\<close> and \<^verbatim>\<open>local\<close>.\<close>

fun specifier_identifiers :: "specifier \<Rightarrow> string list" where
  "specifier_identifiers (ImportDefaultSpecifier n l) = [n]"
| "specifier_identifiers (ImportNamespaceSpecifier n l) = [n]"
| "specifier_identifiers (ImportSpecifier i n l) = [i, n]"

text \<open>
  The traversal: the visitor of a node runs first, then its children are traversed.  A
  visitor that returns does not stop the traversal of the children.
\<close>

fun traverse :: "parent \<Rightarrow> node \<Rightarrow> FileAnalysis \<Rightarrow> FileAnalysis" where
  "traverse par (Identifier n children) a =
     fold (traverse OtherParent) children (identifier_visitor par n a)"
| "traverse par (JSXIdentifier n) a = a"
| "traverse par (ImportDeclaration specs src attributes) a =
     fold (traverse OtherParent) attributes
       (fold (\<lambda>sp. fold (identifier_visitor SpecifierParent) (specifier_identifiers sp)) specs
          (a\<lparr>importInfos := importInfos a @ concat (map (import_info src) specs)\<rparr>))"
| "traverse par (ObjectProperty k v computed decorators) a =
     fold (traverse OtherParent) decorators
       (traverse OtherParent v (traverse (PropertyKeyOf computed) k a))"
| "traverse par (MemberExpression ob pr computed) a =
     traverse OtherParent pr (traverse OtherParent ob a)"
| "traverse par (JSXElement children) a = fold (traverse OtherParent) children (a\<lparr>hasJSX := True\<rparr>)"
| "traverse par (JSXFragment children) a = fold (traverse OtherParent) children (a\<lparr>hasJSX := True\<rparr>)"
| "traverse par (Node ty children) a = fold (traverse OtherParent) children a"

datatype sourceType = module | unambiguous

type_synonym babel = "sourceType \<Rightarrow> string list \<Rightarrow> string \<Rightarrow> node option"

definition endsWith :: "string \<Rightarrow> string \<Rightarrow> bool" where
  "endsWith s suf = (length suf \<le> length s \<and> drop (length s - length suf) s = suf)"

definition plugins :: "string \<Rightarrow> string list" where
  "plugins p =
     (let isTSX = endsWith p ''.tsx'';
          isTS = (endsWith p ''.ts'' \<or> isTSX);
          isJSX = (endsWith p ''.jsx'' \<or> isTSX)
      in [''classProperties'', ''decorators-legacy'']
         @ (if isTS then [''typescript''] else [])
         @ (if isJSX \<or> isTSX then [''jsx''] else []))"

definition analysis0 :: FileAnalysis where
  "analysis0 = \<lparr>importInfos = [], usedIdentifiers = [], hasJSX = False\<rparr>"

text \<open>
  \<^verbatim>\<open>parseCode\<close>: Babel's parser is a parameter (\<open>None\<close>: it throws); the second
  attempt, with \<^verbatim>\<open>sourceType: 'unambiguous'\<close>, is made when the first throws.  The
  result is \<open>None\<close> when \<^verbatim>\<open>parseCode\<close> throws.
\<close>

definition parse_ast :: "babel \<Rightarrow> string \<Rightarrow> string \<Rightarrow> node option" where
  "parse_ast babel_parse code p =
     (case babel_parse module (plugins p) code of
        Some ast \<Rightarrow> Some ast
      | None \<Rightarrow> babel_parse unambiguous (plugins p) code)"

definition parseCode :: "babel \<Rightarrow> string \<Rightarrow> string \<Rightarrow> FileAnalysis option" where
  "parseCode babel_parse code p =
     (case parse_ast babel_parse code p of
        None \<Rightarrow> None
      | Some ast \<Rightarrow> Some (traverse OtherParent ast analysis0))"

definition parseFile :: "babel \<Rightarrow> filesystem \<Rightarrow> string \<Rightarrow> FileAnalysis option" where
  "parseFile babel_parse fs p =
     (case readFileSync fs p of
        None \<Rightarrow> None
      | Some content \<Rightarrow> parseCode babel_parse content p)"

definition isUsed :: "FileAnalysis \<Rightarrow> ImportInfo \<Rightarrow> bool" where
  "isUsed a imp =
     (let used1 = (imp_name imp \<in> set (usedIdentifiers a));
          used2 = (if imp_name imp = ''React'' \<and> hasJSX a then True else used1);
          used3 = (if isNamespace imp \<and>
                      list_ex (\<lambda>identifier. startsWith identifier (imp_name imp @ ''.''))
                        (usedIdentifiers a)
                   then True else used2)
      in used3)"

definition unused_import :: "string \<Rightarrow> ImportInfo \<Rightarrow> UnusedImport" where
  "unused_import p imp = \<lparr>filePath = p, line = imp_line imp, column = imp_column imp,
     importName = imp_name imp, source = imp_source imp, confidence = 0.95\<rparr>"

definition findUnusedImports :: "babel \<Rightarrow> filesystem \<Rightarrow> string \<Rightarrow> UnusedImport list" where
  "findUnusedImports babel_parse fs p =
     (case parseFile babel_parse fs p of
        None \<Rightarrow> []
      | Some a \<Rightarrow> map (unused_import p) (filter (\<lambda>imp. \<not> isUsed a imp) (importInfos a)))"

section \<open>Vocabulary for the properties\<close>

text \<open>All nodes of a tree, the root first.\<close>

fun subnodes :: "node \<Rightarrow> node list" where
  "subnodes (Identifier n children) = Identifier n children # concat (map subnodes children)"
| "subnodes (JSXIdentifier n) = [JSXIdentifier n]"
| "subnodes (ImportDeclaration specs src attributes) =
     ImportDeclaration specs src attributes # concat (map subnodes attributes)"
| "subnodes (ObjectProperty k v computed decorators) =
     ObjectProperty k v computed decorators # subnodes k @ subnodes v
     @ concat (map subnodes decorators)"
| "subnodes (MemberExpression ob pr computed) =
     MemberExpression ob pr computed # subnodes ob @ subnodes pr"
| "subnodes (JSXElement children) = JSXElement children # concat (map subnodes children)"
| "subnodes (JSXFragment children) = JSXFragment children # concat (map subnodes children)"
| "subnodes (Node ty children) = Node ty children # concat (map subnodes children)"

text \<open>The names of the \<open>Identifier\<close> nodes of a tree.\<close>

fun identifier_name :: "node \<Rightarrow> string list" where
  "identifier_name (Identifier n children) = [n]"
| "identifier_name _ = []"

definition identifier_names :: "node \<Rightarrow> string list" where
  "identifier_names ast = concat (map identifier_name (subnodes ast))"

text \<open>The import entries that the import declarations of a tree stand for.\<close>

fun node_imports :: "node \<Rightarrow> ImportInfo list" where
  "node_imports (ImportDeclaration specs src attributes) = concat (map (import_info src) specs)"
| "node_imports _ = []"

definition declared_imports :: "node \<Rightarrow> ImportInfo list" where
  "declared_imports ast = concat (map node_imports (subnodes ast))"

text \<open>A member-access expression on the name \<open>N\<close>, such as \<^verbatim>\<open>N.m\<close> or \<^verbatim>\<open>N[e]\<close>.\<close>

fun member_access_on :: "string \<Rightarrow> node \<Rightarrow> bool" where
  "member_access_on N (MemberExpression (Identifier n children) pr computed) = (n = N)"
| "member_access_on N _ = False"

definition has_member_access :: "string \<Rightarrow> node \<Rightarrow> bool" where
  "has_member_access N ast = list_ex (member_access_on N) (subnodes ast)"

text \<open>The same inside a JSX tag, such as \<^verbatim>\<open><N.m />\<close>.\<close>

fun jsx_member_access_on :: "string \<Rightarrow> node \<Rightarrow> bool" where
  "jsx_member_access_on N (Node ty (JSXIdentifier n # rest)) =
     (ty = ''JSXMemberExpression'' \<and> n = N)"
| "jsx_member_access_on N _ = False"

definition has_jsx_member_access :: "string \<Rightarrow> node \<Rightarrow> bool" where
  "has_jsx_member_access N ast = list_ex (jsx_member_access_on N) (subnodes ast)"

text \<open>
  The scope of a scoped package name with its slash (\<^verbatim>\<open>@babel/\<close> for
  \<^verbatim>\<open>@babel/core\<close>), and the package names a list of import paths stands for.
\<close>

definition scoped :: "string \<Rightarrow> bool" where
  "scoped nm = (startsWith nm ''@'' \<and> CHR ''/'' \<in> set nm)"

definition scope_prefix :: "string \<Rightarrow> string" where
  "scope_prefix nm = takeWhile (\<lambda>c. c \<noteq> CHR ''/'') nm @ ''/''"

definition package_names :: "string list \<Rightarrow> string set" where
  "package_names ps = {n. n \<noteq> [] \<and> (\<exists>p\<in>set ps. extractPackageName p = Some n)}"

text \<open>
  A line on which the fixer finds the import of a finding and deletes the whole line:
  it holds the name and the source, and \<^verbatim>\<open>isOnlyImportOnLine\<close> answers true.
\<close>

definition sole_import_line :: "string \<Rightarrow> UnusedImport \<Rightarrow> bool" where
  "sole_import_line txt imp =
     (includes_str txt (importName imp) \<and> includes_str txt (source imp) \<and>
      isOnlyImportOnLine txt (importName imp))"

text \<open>An analysis result without the findings whose confidence is below 0.8.\<close>

definition eligible_findings :: "AnalysisResult \<Rightarrow> AnalysisResult" where
  "eligible_findings result =
     result\<lparr>unusedImports := filter (\<lambda>imp. \<not> confidence imp < 0.8) (unusedImports result),
            unusedDependencies :=
              filter (\<lambda>dep. \<not> dep_confidence dep < 0.8) (unusedDependencies result)\<rparr>"

text \<open>The files of a list that can be read.\<close>

definition readable :: "filesystem \<Rightarrow> string list \<Rightarrow> string list" where
  "readable fs paths = filter (\<lambda>f. readFileSync fs f \<noteq> None) paths"

section \<open>Example inputs\<close>

text \<open>
  A serialisation of manifests that have nothing but the three maps, as
  \<^verbatim>\<open>JSON.stringify(packageJson, null, 2)\<close> prints them, and a parser that reads a
  given table of manifest texts.
\<close>

definition dq :: string where
  "dq = [CHR 0x22]"

definition render_entry :: "string \<times> string \<Rightarrow> string" where
  "render_entry e = ''    '' @ dq @ fst e @ dq @ '': '' @ dq @ snd e @ dq"

definition render_map :: "string \<Rightarrow> (string \<times> string) list option \<Rightarrow> string list" where
  "render_map key m =
     (case m of
        None \<Rightarrow> []
      | Some al \<Rightarrow>
          [''  '' @ dq @ key @ dq @ '': '' @
           (if al = [] then ''{}''
            else ''{'' @ [newline] @ join ('','' @ [newline]) (map render_entry al) @ [newline] @ ''  }'')])"

definition example_stringify :: json_stringify where
  "example_stringify pj =
     (let fields = render_map ''dependencies'' (dependencies pj)
                   @ render_map ''devDependencies'' (devDependencies pj)
                   @ render_map ''peerDependencies'' (peerDependencies pj)
      in if fields = [] then ''{}''
         else ''{'' @ [newline] @ join ('','' @ [newline]) fields @ [newline] @ ''}'')"

definition example_parse :: "PackageJson list \<Rightarrow> json_parse" where
  "example_parse table text =
     map_of (map (\<lambda>pj. (example_stringify pj @ [newline], pj)) table) text"

definition no_locks :: "string \<Rightarrow> bool" where
  "no_locks p = False"

text \<open>
  A project whose manifest declares \<^verbatim>\<open>@babel/core\<close> and \<^verbatim>\<open>left-pad\<close> and whose
  only source file imports \<^verbatim>\<open>@babel/parser\<close>.
\<close>

definition babel_manifest :: PackageJson where
  "babel_manifest = \<lparr>dependencies = Some [(''@babel/core'', ''^7.0.0''), (''left-pad'', ''1.3.0'')],
     devDependencies = None, peerDependencies = None\<rparr>"

definition babel_project :: filesystem where
  "babel_project =
     \<lparr>files = [''package.json'' \<mapsto> example_stringify babel_manifest @ [newline],
               ''src/index.ts'' \<mapsto> ''import x from '@babel/parser';''],
      locked = no_locks\<rparr>"

definition left_pad_finding :: UnusedDependency where
  "left_pad_finding = \<lparr>dep_name = ''left-pad'', dep_version = ''1.3.0'', dep_type = dependency,
     dep_confidence = 0.85, dep_reason = ''Not imported in any source file''\<rparr>"

text \<open>The statement \<^verbatim>\<open>ob.pr(1);\<close>.\<close>

definition call_statement :: "string \<Rightarrow> string \<Rightarrow> node" where
  "call_statement ob pr =
     Node ''ExpressionStatement''
       [Node ''CallExpression''
          [MemberExpression (Identifier ob []) (Identifier pr []) False,
           Node ''NumericLiteral'' []]]"

text \<open>
  A project with two source files, each with one import that nothing refers to.  The
  first file starts with the line \<^verbatim>\<open>import unused from 'pkg'\<close>.
\<close>

definition pkg_import_line :: string where
  "pkg_import_line = ''import unused from 'pkg'' @ [CHR 0x27]"

definition a_ts :: string where
  "a_ts = pkg_import_line @ [newline] @ ''console.log(1);''"

definition b_ts :: string where
  "b_ts = ''import { helper } from './helper';'' @ [newline] @ ''export const x = 1;''"

definition left_pad_manifest :: PackageJson where
  "left_pad_manifest = \<lparr>dependencies = Some [(''left-pad'', ''1.3.0'')],
     devDependencies = None, peerDependencies = None\<rparr>"

definition unused_project :: filesystem where
  "unused_project =
     \<lparr>files = [''package.json'' \<mapsto> example_stringify left_pad_manifest @ [newline],
               ''src/a.ts'' \<mapsto> a_ts, ''src/b.ts'' \<mapsto> b_ts],
      locked = no_locks\<rparr>"

definition finding_a :: UnusedImport where
  "finding_a = \<lparr>filePath = ''src/a.ts'', line = 1, column = 7, importName = ''unused'',
     source = ''pkg'', confidence = 0.95\<rparr>"

definition finding_b :: UnusedImport where
  "finding_b = \<lparr>filePath = ''src/b.ts'', line = 1, column = 9, importName = ''helper'',
     source = ''./helper'', confidence = 0.95\<rparr>"

text \<open>The trees of the first file before and after the fix, and a parser that knows them.\<close>

definition a_ast :: node where
  "a_ast = Node ''File'' [Node ''Program''
     [ImportDeclaration [ImportDefaultSpecifier ''unused'' (Some (1, 7))] ''pkg'' [],
      call_statement ''console'' ''log'']]"

definition a_fixed_ast :: node where
  "a_fixed_ast = Node ''File'' [Node ''Program'' [call_statement ''console'' ''log'']]"

definition a_babel :: babel where
  "a_babel st pl code =
     (if code = a_ts then Some a_ast
      else if code = ''console.log(1);'' then Some a_fixed_ast else None)"

text \<open>The same findings with a confidence of 0.5.\<close>

definition low_confidence_result :: AnalysisResult where
  "low_confidence_result =
     \<lparr>unusedImports = [finding_a\<lparr>confidence := 0.5\<rparr>],
      unusedDependencies =
        [\<lparr>dep_name = ''left-pad'', dep_version = ''1.3.0'', dep_type = dependency,
          dep_confidence = 0.5, dep_reason = ''Not imported in any source file''\<rparr>]\<rparr>"

definition tests_fail :: "filesystem \<Rightarrow> bool" where
  "tests_fail fs = False"

text \<open>
  A project that declares \<^verbatim>\<open>left-pad\<close> as a dependency and \<^verbatim>\<open>react\<close> as a peer
  dependency and imports neither, and a finding of the peer kind for \<^verbatim>\<open>react\<close>.
\<close>

definition peer_manifest :: PackageJson where
  "peer_manifest = \<lparr>dependencies = Some [(''left-pad'', ''1.3.0'')],
     devDependencies = None, peerDependencies = Some [(''react'', ''^18.0.0'')]\<rparr>"

definition peer_project :: filesystem where
  "peer_project =
     \<lparr>files = [''package.json'' \<mapsto> example_stringify peer_manifest @ [newline],
               ''src/index.ts'' \<mapsto> ''export const x = 1;''],
      locked = no_locks\<rparr>"

definition react_peer_finding :: UnusedDependency where
  "react_peer_finding = \<lparr>dep_name = ''react'', dep_version = ''^18.0.0'',
     dep_type = peerDependency, dep_confidence = 0.95, dep_reason = ''Not imported in any source file''\<rparr>"

text \<open>
  A project that declares \<^verbatim>\<open>foo\<close> both as a dependency and as a devDependency and
  does not import it, and the two findings \<^verbatim>\<open>detect\<close> has for it.
\<close>

definition both_manifest :: PackageJson where
  "both_manifest = \<lparr>dependencies = Some [(''foo'', ''1.0.0'')],
     devDependencies = Some [(''foo'', ''1.0.0'')], peerDependencies = None\<rparr>"

definition both_project :: filesystem where
  "both_project =
     \<lparr>files = [''package.json'' \<mapsto> example_stringify both_manifest @ [newline],
               ''src/index.ts'' \<mapsto> ''export const x = 1;''],
      locked = no_locks\<rparr>"

definition both_findings :: "UnusedDependency list" where
  "both_findings =
     [\<lparr>dep_name = ''foo'', dep_version = ''1.0.0'', dep_type = dependency,
       dep_confidence = 0.85, dep_reason = ''Not imported in any source file''\<rparr>,
      \<lparr>dep_name = ''foo'', dep_version = ''1.0.0'', dep_type = devDependency,
       dep_confidence = 0.75, dep_reason = ''Not imported in any source file''\<rparr>]"

text \<open>
  A file of eight lines with unused imports on lines 3 and 7, and a file whose first
  line imports two names that are both unused.
\<close>

definition c_ts_lines :: "string list" where
  "c_ts_lines =
     [''// c.ts'',
      ''import used from 'lib';'',
      ''import first from 'one';'',
      ''const a = used(1);'',
      ''const b = 2;'',
      ''// the rest'',
      ''import second from 'two';'',
      ''export default a + b;'']"

definition c_ts_fixed :: "string list" where
  "c_ts_fixed =
     [''// c.ts'',
      ''import used from 'lib';'',
      ''const a = used(1);'',
      ''const b = 2;'',
      ''// the rest'',
      ''export default a + b;'']"

definition d_ts :: string where
  "d_ts = ''import { a, b } from 'x';'' @ [newline] @ ''export const y = 1;''"

definition lines_project :: filesystem where
  "lines_project =
     \<lparr>files = [''src/c.ts'' \<mapsto> join [newline] c_ts_lines, ''src/d.ts'' \<mapsto> d_ts],
      locked = no_locks\<rparr>"

definition finding_3 :: UnusedImport where
  "finding_3 = \<lparr>filePath = ''src/c.ts'', line = 3, column = 7, importName = ''first'',
     source = ''one'', confidence = 0.95\<rparr>"

definition finding_7 :: UnusedImport where
  "finding_7 = \<lparr>filePath = ''src/c.ts'', line = 7, column = 7, importName = ''second'',
     source = ''two'', confidence = 0.95\<rparr>"

definition tie_a :: UnusedImport where
  "tie_a = \<lparr>filePath = ''src/d.ts'', line = 1, column = 9, importName = ''a'',
     source = ''x'', confidence = 0.95\<rparr>"

definition tie_b :: UnusedImport where
  "tie_b = \<lparr>filePath = ''src/d.ts'', line = 1, column = 12, importName = ''b'',
     source = ''x'', confidence = 0.95\<rparr>"

text \<open>
  Three files with the namespace import \<^verbatim>\<open>import * as utils from './utils'\<close>: the
  first calls \<^verbatim>\<open>utils.format(1)\<close>, the second never mentions \<^verbatim>\<open>utils\<close>, the
  third uses it in the JSX tag \<^verbatim>\<open><utils.Button />\<close> only.  The parser of the example
  knows the trees of these three texts.
\<close>

definition u_ts :: string where
  "u_ts = ''import * as utils from './utils';'' @ [newline] @ ''utils.format(1);''"

definition v_ts :: string where
  "v_ts = ''import * as utils from './utils';'' @ [newline] @ ''console.log(1);''"

definition w_tsx :: string where
  "w_tsx = ''import * as utils from './utils';'' @ [newline] @ ''const b = <utils.Button />;''"

definition utils_import :: node where
  "utils_import =
     ImportDeclaration [ImportNamespaceSpecifier ''utils'' (Some (1, 7))] ''./utils'' []"

definition u_ast :: node where
  "u_ast = Node ''File'' [Node ''Program'' [utils_import, call_statement ''utils'' ''format'']]"

definition v_ast :: node where
  "v_ast = Node ''File'' [Node ''Program'' [utils_import, call_statement ''console'' ''log'']]"

definition w_ast :: node where
  "w_ast = Node ''File'' [Node ''Program''
     [utils_import,
      Node ''VariableDeclaration''
        [Node ''VariableDeclarator''
           [Identifier ''b'' [],
            JSXElement
              [Node ''JSXOpeningElement''
                 [Node ''JSXMemberExpression''
                    [JSXIdentifier ''utils'', JSXIdentifier ''Button'']]]]]]]"

definition utils_babel :: babel where
  "utils_babel st pl code =
     (if code = u_ts then Some u_ast
      else if code = v_ts then Some v_ast
      else if code = w_tsx then Some w_ast
      else None)"

definition utils_project :: filesystem where
  "utils_project =
     \<lparr>files = [''src/u.ts'' \<mapsto> u_ts, ''src/v.ts'' \<mapsto> v_ts, ''src/w.tsx'' \<mapsto> w_tsx],
      locked = no_locks\<rparr>"

text \<open>
  A project with the manifest of the first example whose only source file is the
  side-effect import \<^verbatim>\<open>import '@babel/register';\<close>.
\<close>

definition register_project :: filesystem where
  "register_project =
     \<lparr>files = [''package.json'' \<mapsto> example_stringify babel_manifest @ [newline],
               ''src/setup.ts'' \<mapsto> ''import '@babel/register';''],
      locked = no_locks\<rparr>"

definition babel_core_finding :: UnusedDependency where
  "babel_core_finding = \<lparr>dep_name = ''@babel/core'', dep_version = ''^7.0.0'',
     dep_type = dependency, dep_confidence = 0.85,
     dep_reason = ''Not imported in any source file''\<rparr>"

definition empty_project :: filesystem where
  "empty_project = \<lparr>files = Map.empty, locked = no_locks\<rparr>"

section \<open>Properties of the dependency detector\<close>

lemma scan_file_unreadable: "readFileSync fs f = None \<Longrightarrow> scan_file fs f used = used"
  by (simp add: scan_file_def)

lemma fold_scan_file_readable:
  "fold (scan_file fs) allFiles used = fold (scan_file fs) (readable fs allFiles) used"
  by (induction allFiles arbitrary: used) (auto simp: scan_file_unreadable readable_def)

lemma scan_files_readable: "scan_files fs allFiles = scan_files fs (readable fs allFiles)"
  unfolding scan_files_def by (rule fold_scan_file_readable)

lemma detect_with_manifest:
  assumes "readFileSync fs manifest = Some content" "parse content = Some pj"
  shows "detect parse manifest allFiles fs =
           Inr (unused_in (scan_files fs allFiles) (or_empty (dependencies pj))
                @ unused_dev_in (scan_files fs allFiles) (or_empty (devDependencies pj)))"
  using assms by (simp add: detect_def existsSync_def readFileSync_def Let_def)

lemma split_not_Nil: "split c s \<noteq> []"
  by (induction s) (auto split: list.splits)

lemma hd_split: "hd (split c s) = takeWhile (\<lambda>x. x \<noteq> c) s"
  by (induction s) (auto simp: split_not_Nil split: list.splits)

lemma set_set_add: "set (set_add x xs) = insert x (set xs)"
  by (auto simp: set_add_def)


lemma set_add_import_path:
  "set (add_import_path p used) = set used \<union> package_names [p]"
  by (auto simp: add_import_path_def package_names_def set_set_add split: option.splits)

lemma package_names_Cons: "package_names (p # ps) = package_names [p] \<union> package_names ps"
  by (auto simp: package_names_def)

lemma set_fold_add_import_path:
  "set (fold add_import_path ps used) = set used \<union> package_names ps"
proof (induction ps arbitrary: used)
  case Nil
  show ?case by (simp add: package_names_def)
next
  case (Cons p ps)
  show ?case
    using Cons.IH [of "add_import_path p used"] package_names_Cons [of p ps]
    by (auto simp: set_add_import_path)
qed

lemma extractImports_mono: "set used \<subseteq> set (extractImports content used)"
  unfolding extractImports_def set_fold_add_import_path by blast

lemma extractImports_found:
  "set (extractImports content []) \<subseteq> set (extractImports content used)"
  unfolding extractImports_def set_fold_add_import_path by auto

lemma scan_file_mono: "set used \<subseteq> set (scan_file fs f used)"
  using extractImports_mono by (auto simp: scan_file_def split: option.splits)

lemma fold_scan_file_mono: "set used \<subseteq> set (fold (scan_file fs) allFiles used)"
proof (induction allFiles arbitrary: used)
  case Nil
  show ?case by simp
next
  case (Cons f allFiles)
  show ?case using Cons.IH [of "scan_file fs f used"] scan_file_mono [of used fs f] by auto
qed

lemma scan_files_contains:
  assumes "f \<in> set allFiles" "readFileSync fs f = Some content"
  shows "set (extractImports content []) \<subseteq> set (fold (scan_file fs) allFiles used)"
  using assms
proof (induction allFiles arbitrary: used)
  case Nil
  then show ?case by simp
next
  case (Cons g allFiles)
  show ?case
  proof (cases "g = f")
    case True
    have "set (extractImports content []) \<subseteq> set (scan_file fs g used)"
      using True Cons.prems(2) extractImports_found [of content used] by (auto simp: scan_file_def)
    then show ?thesis using fold_scan_file_mono [of "scan_file fs g used" fs allFiles] by auto
  next
    case False
    then show ?thesis using Cons by auto
  qed
qed

lemma isPackageUsed_iff:
  "isPackageUsed nm used \<longleftrightarrow>
     nm \<in> set used \<or>
     (CHR ''/'' \<in> set nm \<and> (\<exists>u\<in>set used. startsWith u (scope_prefix nm)))"
  by (auto simp: isPackageUsed_def hd_split list_ex_iff Let_def scope_prefix_def)

lemma unused_in_not_used: "d \<in> set (unused_in U deps) \<Longrightarrow> \<not> isPackageUsed (dep_name d) U"
  by (auto simp: unused_in_def dependency_finding_def)

lemma unused_dev_in_not_used: "d \<in> set (unused_dev_in U deps) \<Longrightarrow> \<not> isPackageUsed (dep_name d) U"
  by (auto simp: unused_dev_in_def devDependency_finding_def)

lemma detect_Inr:
  assumes "detect parse manifest allFiles fs = Inr r"
  shows "\<exists>content pj. readFileSync fs manifest = Some content \<and> parse content = Some pj \<and>
           r = unused_in (scan_files fs allFiles) (or_empty (dependencies pj))
               @ unused_dev_in (scan_files fs allFiles) (or_empty (devDependencies pj))"
  using assms by (auto simp: detect_def Let_def split: if_splits option.splits)


text \<open>
  Claim C7.  \<^verbatim>\<open>detect\<close> is rejected with the error \<^verbatim>\<open>package.json not found\<close>
  whenever the manifest is absent.  When the manifest is there and parses, \<^verbatim>\<open>detect\<close>
  returns findings whatever scanned files cannot be read, and the findings are those of
  a scan of the readable files alone.
\<close>

theorem detect_rejects_without_manifest_skips_unreadable_files:
  "(\<not> existsSync fs manifest \<longrightarrow>
      detect parse manifest allFiles fs = Inl (Error ''package.json not found''))
   \<and> (\<forall>content pj. readFileSync fs manifest = Some content \<and> parse content = Some pj \<longrightarrow>
        (\<exists>r. detect parse manifest allFiles fs = Inr r)
        \<and> detect parse manifest allFiles fs = detect parse manifest (readable fs allFiles) fs)"
proof (intro conjI allI impI)
  assume "\<not> existsSync fs manifest"
  then show "detect parse manifest allFiles fs = Inl (Error ''package.json not found'')"
    by (simp add: detect_def)
next
  fix content pj
  assume h: "readFileSync fs manifest = Some content \<and> parse content = Some pj"
  then show "\<exists>r. detect parse manifest allFiles fs = Inr r"
    by (simp add: detect_with_manifest)
  from h show "detect parse manifest allFiles fs = detect parse manifest (readable fs allFiles) fs"
    using scan_files_readable [of fs allFiles] by (simp add: detect_with_manifest)
qed

theorem detect_rejects_without_manifest_skips_unreadable_files_witness:
  "detect (example_parse [babel_manifest]) ''package.json'' [''src/index.ts''] empty_project
     = Inl (Error ''package.json not found'')
   \<and> (\<exists>r. detect (example_parse [babel_manifest]) ''package.json''
              [''src/index.ts'', ''src/gone.ts''] babel_project = Inr r)
   \<and> detect (example_parse [babel_manifest]) ''package.json''
         [''src/index.ts'', ''src/gone.ts''] babel_project
     = detect (example_parse [babel_manifest]) ''package.json'' [''src/index.ts''] babel_project"
proof -
  have a: "\<not> existsSync empty_project ''package.json''"
    by (simp add: existsSync_def empty_project_def)
  have b: "readFileSync babel_project ''package.json''
             = Some (example_stringify babel_manifest @ [newline])"
    by (simp add: readFileSync_def babel_project_def)
  have c: "example_parse [babel_manifest] (example_stringify babel_manifest @ [newline])
             = Some babel_manifest"
    by (simp add: example_parse_def)
  have d: "readable babel_project [''src/index.ts'', ''src/gone.ts''] = [''src/index.ts'']"
    by (simp add: readable_def readFileSync_def babel_project_def)
  from a have A: "detect (example_parse [babel_manifest]) ''package.json'' [''src/index.ts'']
                    empty_project = Inl (Error ''package.json not found'')"
    using detect_rejects_without_manifest_skips_unreadable_files
            [of empty_project "''package.json''" "example_parse [babel_manifest]"
                "[''src/index.ts'']"]
    by blast
  from b c have B: "(\<exists>r. detect (example_parse [babel_manifest]) ''package.json''
              [''src/index.ts'', ''src/gone.ts''] babel_project = Inr r)
      \<and> detect (example_parse [babel_manifest]) ''package.json''
            [''src/index.ts'', ''src/gone.ts''] babel_project
        = detect (example_parse [babel_manifest]) ''package.json''
            (readable babel_project [''src/index.ts'', ''src/gone.ts'']) babel_project"
    using detect_rejects_without_manifest_skips_unreadable_files
            [of babel_project "''package.json''" "example_parse [babel_manifest]"
                "[''src/index.ts'', ''src/gone.ts'']"]
    by blast
  from A B [unfolded d] show ?thesis by blast
qed

subsection \<open>Sibling packages of a scope\<close>

lemma star_specifier:
  assumes "set spec \<inter> set quotes = {}" "q \<in> set quotes"
  shows "rmatch [Star (NoneOf quotes), GClose, One (OneOf quotes)] prev True cap (spec @ q # post)
           = Some (cap @ spec, post)"
  using assms
proof (induction spec arbitrary: prev cap)
  case Nil
  then show ?case by (simp add: record_char_def)
next
  case (Cons c spec)
  then show ?case by (simp add: record_char_def)
qed

lemma rsegs_match_first:
  "rmatch r prev False [] (x # xs) = Some (cap, rest) \<Longrightarrow>
     \<exists>segs. rsegs r prev 0 (x # xs) = Match cap # segs"
  by simp

lemma quotes_not_space: "q \<in> set quotes \<Longrightarrow> q \<notin> set whitespace"
  by (auto simp: quotes_def whitespace_def)

lemma from_specifier:
  assumes "set spec \<inter> set quotes = {}" "spec \<noteq> []" "q \<in> set quotes"
  shows "rmatch ([Plus Space] @ lit ''from''
            @ [Plus Space, One (OneOf quotes), GOpen, Plus (NoneOf quotes), GClose, One (OneOf quotes)])
           prev False [] ('' from '' @ q # spec @ q # post)
         = Some (spec, post)"
proof -
  obtain c spec' where s: "spec = c # spec'"
    using assms(2) by (cases spec) auto
  have c: "c \<notin> set quotes" "set spec' \<inter> set quotes = {}"
    using assms(1) s by auto
  have sp: "CHR '' '' \<in> set whitespace" "CHR ''f'' \<notin> set whitespace"
    by (simp_all add: whitespace_def)
  show ?thesis
    using star_specifier [OF c(2) assms(3), of "Some c" "[c]" post] c(1) assms(3)
          quotes_not_space [OF assms(3)] sp
    by (simp add: s lit_def record_char_def)
qed

lemma binding_from_specifier:
  assumes "set binding \<inter> set whitespace = {}"
    and "set spec \<inter> set quotes = {}" "spec \<noteq> []" "q \<in> set quotes"
  shows "rmatch ([LazyStar Dot, Plus Space] @ lit ''from''
            @ [Plus Space, One (OneOf quotes), GOpen, Plus (NoneOf quotes), GClose, One (OneOf quotes)])
           prev False [] (binding @ '' from '' @ q # spec @ q # post)
         = Some (spec, post)"
  using assms(1)
proof (induction binding arbitrary: prev)
  case Nil
  show ?case
    using from_specifier [OF assms(2,3,4), of prev post] by simp
next
  case (Cons c binding)
  have c: "c \<notin> set whitespace" "set binding \<inter> set whitespace = {}"
    using Cons.prems by auto
  then have d: "c \<noteq> CHR 0x0A" "c \<noteq> CHR 0x0D"
    by (auto simp: whitespace_def)
  show ?case
    using Cons.IH [OF c(2), of "Some c"] c(1) d by (simp add: record_char_def)
qed

lemma es6_import_matches:
  assumes "binding \<noteq> []" "set binding \<inter> set whitespace = {}"
    and "set spec \<inter> set quotes = {}" "spec \<noteq> []" "q \<in> set quotes"
  shows "rmatch rx_es6_import prev False [] (''import '' @ binding @ '' from '' @ q # spec @ q # post)
         = Some (spec, post)"
proof -
  obtain c b where b: "binding = c # b"
    using assms(1) by (cases binding) auto
  have c: "c \<notin> set whitespace"
    using assms(2) b by auto
  have sp: "CHR '' '' \<in> set whitespace"
    by (simp add: whitespace_def)
  show ?thesis
    using binding_from_specifier [OF assms(2,3,4,5), of "Some (CHR '' '')" post] c sp
    by (simp add: rx_es6_import_def lit_def b record_char_def)
qed

lemma leading_import_captured:
  assumes "binding \<noteq> []" "set binding \<inter> set whitespace = {}"
    and "set spec \<inter> set quotes = {}" "spec \<noteq> []" "q \<in> set quotes"
  shows "spec \<in> set (captures rx_es6_import
                       (''import '' @ binding @ '' from '' @ q # spec @ q # post))"
proof -
  let ?content = "''import '' @ binding @ '' from '' @ q # spec @ q # post"
  obtain x xs where c: "?content = x # xs"
    by simp
  have "rmatch rx_es6_import None False [] (x # xs) = Some (spec, post)"
    using es6_import_matches [OF assms, of None post] unfolding c .
  then obtain segs where "rsegs rx_es6_import None 0 (x # xs) = Match spec # segs"
    using rsegs_match_first by blast
  then show ?thesis
    unfolding c by (simp add: captures_def)
qed

lemma leading_import_scanned:
  assumes "binding \<noteq> []" "set binding \<inter> set whitespace = {}"
    and "set spec \<inter> set quotes = {}" "q \<in> set quotes"
    and "extractPackageName spec = Some sibling" "sibling \<noteq> []"
  shows "sibling \<in> set (extractImports
                          (''import '' @ binding @ '' from '' @ q # spec @ q # post) [])"
proof -
  have "spec \<noteq> []"
    using assms(5,6) by (auto simp: extractPackageName_def startsWith_def)
  then have "spec \<in> set (captures rx_es6_import
                       (''import '' @ binding @ '' from '' @ q # spec @ q # post))"
    using leading_import_captured assms by blast
  then have "sibling \<in> package_names (captures rx_es6_import
                       (''import '' @ binding @ '' from '' @ q # spec @ q # post))"
    using assms(5,6) by (auto simp: package_names_def)
  then show ?thesis
    unfolding extractImports_def set_fold_add_import_path by blast
qed

lemma scope_prefix_not_Nil: "startsWith s (scope_prefix nm) \<Longrightarrow> s \<noteq> []"
  by (auto simp: startsWith_def scope_prefix_def)

text \<open>
  Claim C8, as stated, fails: the scan knows the three forms
  \<^verbatim>\<open>import ... from '...'\<close>, \<^verbatim>\<open>require('...')\<close> and \<^verbatim>\<open>import('...')\<close> and no
  other.  The only source file of the project below imports \<^verbatim>\<open>@babel/register\<close>, a
  sibling of \<^verbatim>\<open>@babel/core\<close>, for its side effect; the scan finds no package at all
  and \<^verbatim>\<open>detect\<close> reports \<^verbatim>\<open>@babel/core\<close>.
\<close>

theorem side_effect_import_of_sibling_not_counted:
  "scoped ''@babel/core''
   \<and> startsWith ''@babel/register'' (scope_prefix ''@babel/core'')
   \<and> readFileSync register_project ''src/setup.ts'' = Some ''import '@babel/register';''
   \<and> captures rx_es6_import ''import '@babel/register';'' = []
   \<and> captures rx_require ''import '@babel/register';'' = []
   \<and> captures rx_dynamic_import ''import '@babel/register';'' = []
   \<and> scan_files register_project [''src/setup.ts'', ''package.json''] = []
   \<and> detect (example_parse [babel_manifest]) ''package.json'' [''src/setup.ts'', ''package.json'']
         register_project
       = Inr [babel_core_finding, left_pad_finding]
   \<and> dep_name babel_core_finding = ''@babel/core''"
  by code_simp

text \<open>
  Claim C8, amended.  The usage test is membership in the set of used packages or, for a
  name with a slash (every scoped name has one), a used package that starts with the
  name's scope and the slash.  Hence \<^verbatim>\<open>detect\<close> never reports a scoped package when
  the scan of some readable scanned file yields a package under the same scope.  The scan
  does yield it for every file that begins with a statement
  \<^verbatim>\<open>import b from 'path'\<close> on one line (the binding \<open>b\<close> without white space, the
  path in single or double quotes) whose path belongs to such a package, whatever
  follows the statement.
\<close>

theorem scoped_sibling_counts_as_usage:
  "(isPackageUsed nm used \<longleftrightarrow>
      nm \<in> set used \<or> (CHR ''/'' \<in> set nm \<and> (\<exists>u\<in>set used. startsWith u (scope_prefix nm))))
   \<and> (scoped nm \<and> detect parse manifest allFiles fs = Inr r \<and> f \<in> set allFiles \<and>
        readFileSync fs f = Some content \<and> sibling \<in> set (extractImports content []) \<and>
        startsWith sibling (scope_prefix nm)
      \<longrightarrow> (\<forall>d\<in>set r. dep_name d \<noteq> nm))
   \<and> (scoped nm \<and> detect parse manifest allFiles fs = Inr r \<and> f \<in> set allFiles \<and>
        readFileSync fs f = Some (''import '' @ binding @ '' from '' @ q # spec @ q # post) \<and>
        binding \<noteq> [] \<and> set binding \<inter> set whitespace = {} \<and>
        q \<in> set quotes \<and> set spec \<inter> set quotes = {} \<and>
        extractPackageName spec = Some sibling \<and> startsWith sibling (scope_prefix nm)
      \<longrightarrow> (\<forall>d\<in>set r. dep_name d \<noteq> nm))"
proof -
  have usage: "isPackageUsed nm used \<longleftrightarrow>
      nm \<in> set used \<or> (CHR ''/'' \<in> set nm \<and> (\<exists>u\<in>set used. startsWith u (scope_prefix nm)))"
    by (rule isPackageUsed_iff)
  have scan: "\<forall>d\<in>set r. dep_name d \<noteq> nm"
    if h: "scoped nm" "detect parse manifest allFiles fs = Inr r" "f \<in> set allFiles"
      "readFileSync fs f = Some code" "sibling \<in> set (extractImports code [])"
      "startsWith sibling (scope_prefix nm)" for code
  proof -
    let ?U = "scan_files fs allFiles"
    from h have "sibling \<in> set ?U"
      using scan_files_contains [of f allFiles fs code "[]"] by (auto simp: scan_files_def)
    with h have used: "isPackageUsed nm ?U"
      by (auto simp: isPackageUsed_iff scoped_def)
    from detect_Inr [OF h(2)] obtain pj :: PackageJson where
      r: "r = unused_in ?U (or_empty (dependencies pj))
              @ unused_dev_in ?U (or_empty (devDependencies pj))"
      by blast
    show ?thesis
      using used unused_in_not_used unused_dev_in_not_used unfolding r by auto
  qed
  have leading: "\<forall>d\<in>set r. dep_name d \<noteq> nm"
    if h: "scoped nm \<and> detect parse manifest allFiles fs = Inr r \<and> f \<in> set allFiles \<and>
        readFileSync fs f = Some (''import '' @ binding @ '' from '' @ q # spec @ q # post) \<and>
        binding \<noteq> [] \<and> set binding \<inter> set whitespace = {} \<and>
        q \<in> set quotes \<and> set spec \<inter> set quotes = {} \<and>
        extractPackageName spec = Some sibling \<and> startsWith sibling (scope_prefix nm)"
  proof -
    have "sibling \<noteq> []"
      using h scope_prefix_not_Nil by blast
    then have "sibling \<in> set (extractImports
                 (''import '' @ binding @ '' from '' @ q # spec @ q # post) [])"
      using h leading_import_scanned [of binding spec q sibling post] by blast
    then show ?thesis
      using h scan [of "''import '' @ binding @ '' from '' @ q # spec @ q # post"] by blast
  qed
  from usage scan leading show ?thesis by blast
qed

theorem scoped_sibling_counts_as_usage_witness:
  "detect (example_parse [babel_manifest]) ''package.json'' [''src/index.ts'', ''package.json'']
     babel_project = Inr [left_pad_finding]
   \<and> readFileSync babel_project ''src/index.ts'' = Some ''import x from '@babel/parser';''
   \<and> ''@babel/core'' \<notin> dep_name ` set [left_pad_finding]
   \<and> isPackageUsed ''@babel/core'' [''@babel/parser'']"
proof -
  have h1: "scoped ''@babel/core''"
    by code_simp
  have h2: "detect (example_parse [babel_manifest]) ''package.json''
              [''src/index.ts'', ''package.json''] babel_project = Inr [left_pad_finding]"
    by code_simp
  have h3: "''src/index.ts'' \<in> set [''src/index.ts'', ''package.json'']"
    by simp
  have h4: "readFileSync babel_project ''src/index.ts'' = Some ''import x from '@babel/parser';''"
    by (simp add: readFileSync_def babel_project_def)
  have h5: "''@babel/parser'' \<in> set (extractImports ''import x from '@babel/parser';'' [])"
    by code_simp
  have h6: "startsWith ''@babel/parser'' (scope_prefix ''@babel/core'')"
    by code_simp
  have h7: "''@babel/parser'' \<in> set [''@babel/parser'']"
    by simp
  have h8: "CHR ''/'' \<in> set ''@babel/core''"
    by simp
  have h9: "''import x from '@babel/parser';''
              = ''import '' @ ''x'' @ '' from '' @ CHR 0x27 # ''@babel/parser'' @ CHR 0x27 # '';''"
    by simp
  have h10: "''x'' \<noteq> [] \<and> set ''x'' \<inter> set whitespace = {} \<and> CHR 0x27 \<in> set quotes
             \<and> set ''@babel/parser'' \<inter> set quotes = {}
             \<and> extractPackageName ''@babel/parser'' = Some ''@babel/parser''"
    by code_simp
  note t = scoped_sibling_counts_as_usage
             [of "''@babel/core''" "[''@babel/parser'']" "example_parse [babel_manifest]"
                 "''package.json''" "[''src/index.ts'', ''package.json'']" babel_project
                 "[left_pad_finding]" "''src/index.ts''" "''import x from '@babel/parser';''"
                 "''@babel/parser''" "''x''" "CHR 0x27" "''@babel/parser''" "'';''"]
  from t h1 h2 h3 h4 h5 h6 have a: "\<forall>d\<in>set [left_pad_finding]. dep_name d \<noteq> ''@babel/core''"
    by blast
  from t h1 h2 h3 h4 [unfolded h9] h6 h10
  have a': "\<forall>d\<in>set [left_pad_finding]. dep_name d \<noteq> ''@babel/core''"
    by blast
  from t h6 h7 h8 have b: "isPackageUsed ''@babel/core'' [''@babel/parser'']"
    by blast
  from a a' b h2 h4 show ?thesis by auto
qed

section \<open>Properties of the fixer\<close>

subsection \<open>The confidence floor of safe mode\<close>

lemma fold_group_import_eligible:
  "safeMode opts \<Longrightarrow>
     fold (group_import opts) (filter (\<lambda>imp. \<not> confidence imp < 0.8) imps) byFile
       = fold (group_import opts) imps byFile"
  by (induction imps arbitrary: byFile) (auto simp: group_import_def skipped_import_def)

lemma fold_fix_dependency_eligible:
  "safeMode opts \<Longrightarrow>
     fold (fix_dependency opts) (filter (\<lambda>dep. \<not> dep_confidence dep < 0.8) deps) st
       = fold (fix_dependency opts) deps st"
  by (induction deps arbitrary: st) (auto simp: fix_dependency_def skipped_dependency_def)

lemma fixUnusedImports_cong:
  "groupByFile opts (unusedImports r1) = groupByFile opts (unusedImports r2) \<Longrightarrow>
     fixUnusedImports opts r1 st = fixUnusedImports opts r2 st"
  by (simp add: fixUnusedImports_def)

lemma fixUnusedDependencies_cong:
  "fold (fix_dependency opts) (unusedDependencies r1) = fold (fix_dependency opts) (unusedDependencies r2) \<Longrightarrow>
     fixUnusedDependencies opts parse stringify manifest r1 st
       = fixUnusedDependencies opts parse stringify manifest r2 st"
  by (simp add: fixUnusedDependencies_def cong: prod.case_cong option.case_cong)

lemma fixUnusedImports_eligible:
  assumes "safeMode opts"
  shows "fixUnusedImports opts (eligible_findings result) st = fixUnusedImports opts result st"
proof (rule fixUnusedImports_cong)
  show "groupByFile opts (unusedImports (eligible_findings result))
          = groupByFile opts (unusedImports result)"
    using fold_group_import_eligible [OF assms, of "unusedImports result" "[]"]
    by (simp add: groupByFile_def eligible_findings_def)
qed

lemma fixUnusedDependencies_eligible:
  assumes "safeMode opts"
  shows "fixUnusedDependencies opts parse stringify manifest (eligible_findings result) st
           = fixUnusedDependencies opts parse stringify manifest result st"
proof (rule fixUnusedDependencies_cong)
  show "fold (fix_dependency opts) (unusedDependencies (eligible_findings result))
          = fold (fix_dependency opts) (unusedDependencies result)"
    using fold_fix_dependency_eligible [OF assms, of "unusedDependencies result"]
    by (auto simp: eligible_findings_def)
qed

lemma fixer_fix_eligible:
  assumes "safeMode opts"
  shows "fixer_fix opts parse stringify manifest tests (eligible_findings result) fs
           = fixer_fix opts parse stringify manifest tests result fs"
  unfolding fixer_fix_def fixUnusedImports_eligible [OF assms] fixUnusedDependencies_eligible [OF assms]
  by (rule refl)

lemma fixer_fix_no_findings:
  "fixer_fix opts parse stringify manifest tests \<lparr>unusedImports = [], unusedDependencies = []\<rparr> fs
     = (fs, fixResult0\<lparr>errors :=
           (case readFileSync fs manifest of
              None \<Rightarrow> [dependency_error]
            | Some content \<Rightarrow> (case parse content of None \<Rightarrow> [dependency_error] | Some pj \<Rightarrow> []))\<rparr>)"
  by (simp add: fixer_fix_def fixUnusedImports_def groupByFile_def fixUnusedDependencies_def
      fixResult0_def split: option.splits)


text \<open>
  Claim C6.  In safe mode the outcome of \<^verbatim>\<open>fix\<close> (the file system and the
  \<^verbatim>\<open>FixResult\<close>) is the outcome of the same call without the findings whose
  confidence is below 0.8.  When every finding is below 0.8, no file and no manifest
  entry changes, nothing is recorded as modified or removed, and the only error string
  there can be is the one of a manifest that cannot be read or parsed, as in a call
  with no finding at all.  The analysis result is an argument of \<^verbatim>\<open>fix\<close>, which
  returns no new version of it.
\<close>

theorem safe_mode_skips_low_confidence:
  "safeMode opts \<longrightarrow>
     fixer_fix opts parse stringify manifest tests result fs
       = fixer_fix opts parse stringify manifest tests (eligible_findings result) fs
     \<and> ((\<forall>imp\<in>set (unusedImports result). confidence imp < 0.8) \<and>
        (\<forall>dep\<in>set (unusedDependencies result). dep_confidence dep < 0.8) \<longrightarrow>
          fixer_fix opts parse stringify manifest tests result fs
            = fixer_fix opts parse stringify manifest tests
                \<lparr>unusedImports = [], unusedDependencies = []\<rparr> fs
          \<and> fst (fixer_fix opts parse stringify manifest tests result fs) = fs
          \<and> filesModified (snd (fixer_fix opts parse stringify manifest tests result fs)) = []
          \<and> importsRemoved (snd (fixer_fix opts parse stringify manifest tests result fs)) = 0
          \<and> dependenciesRemoved (snd (fixer_fix opts parse stringify manifest tests result fs)) = []
          \<and> set (errors (snd (fixer_fix opts parse stringify manifest tests result fs)))
               \<subseteq> {dependency_error})"
proof (intro impI conjI)
  assume safe: "safeMode opts"
  show eq: "fixer_fix opts parse stringify manifest tests result fs
       = fixer_fix opts parse stringify manifest tests (eligible_findings result) fs"
    using fixer_fix_eligible [OF safe] by simp
  assume low: "(\<forall>imp\<in>set (unusedImports result). confidence imp < 0.8) \<and>
        (\<forall>dep\<in>set (unusedDependencies result). dep_confidence dep < 0.8)"
  then have "eligible_findings result = \<lparr>unusedImports = [], unusedDependencies = []\<rparr>"
    by (cases result) (auto simp: eligible_findings_def filter_empty_conv)
  with eq show none: "fixer_fix opts parse stringify manifest tests result fs
            = fixer_fix opts parse stringify manifest tests
                \<lparr>unusedImports = [], unusedDependencies = []\<rparr> fs"
    by simp
  show "fst (fixer_fix opts parse stringify manifest tests result fs) = fs"
    unfolding none fixer_fix_no_findings by simp
  show "filesModified (snd (fixer_fix opts parse stringify manifest tests result fs)) = []"
    unfolding none fixer_fix_no_findings by (simp add: fixResult0_def)
  show "importsRemoved (snd (fixer_fix opts parse stringify manifest tests result fs)) = 0"
    unfolding none fixer_fix_no_findings by (simp add: fixResult0_def)
  show "dependenciesRemoved (snd (fixer_fix opts parse stringify manifest tests result fs)) = []"
    unfolding none fixer_fix_no_findings by (simp add: fixResult0_def)
  show "set (errors (snd (fixer_fix opts parse stringify manifest tests result fs)))
               \<subseteq> {dependency_error}"
    unfolding none fixer_fix_no_findings by (auto simp: fixResult0_def split: option.splits)
qed


theorem safe_mode_skips_low_confidence_witness:
  "fixer_fix (AutoFixer None None) (example_parse [left_pad_manifest]) example_stringify
     ''package.json'' runTests low_confidence_result unused_project = (unused_project, fixResult0)"
proof -
  have safe: "safeMode (AutoFixer None None)"
    by (simp add: AutoFixer_def)
  have low: "(\<forall>imp\<in>set (unusedImports low_confidence_result). confidence imp < 0.8) \<and>
        (\<forall>dep\<in>set (unusedDependencies low_confidence_result). dep_confidence dep < 0.8)"
    by (simp add: low_confidence_result_def)
  have m: "readFileSync unused_project ''package.json''
             = Some (example_stringify left_pad_manifest @ [newline])"
    by (simp add: readFileSync_def unused_project_def)
  have p: "example_parse [left_pad_manifest] (example_stringify left_pad_manifest @ [newline])
             = Some left_pad_manifest"
    by (simp add: example_parse_def)
  have "fixer_fix (AutoFixer None None) (example_parse [left_pad_manifest]) example_stringify
          ''package.json'' runTests low_confidence_result unused_project
        = fixer_fix (AutoFixer None None) (example_parse [left_pad_manifest]) example_stringify
          ''package.json'' runTests \<lparr>unusedImports = [], unusedDependencies = []\<rparr> unused_project"
    using safe low
      safe_mode_skips_low_confidence
        [of "AutoFixer None None" "example_parse [left_pad_manifest]" example_stringify
            "''package.json''" runTests low_confidence_result unused_project]
    by blast
  then show ?thesis
    unfolding fixer_fix_no_findings by (simp add: m p fixResult0_def)
qed

subsection \<open>What the dependencies pass does to the manifest\<close>

lemma fix_dependency_peer:
  "peerDependencies (fst (fix_dependency opts d st)) = peerDependencies (fst st)"
  by (cases st) (simp add: fix_dependency_def)

lemma fold_fix_dependency_peer:
  "peerDependencies (fst (fold (fix_dependency opts) deps st)) = peerDependencies (fst st)"
  by (induction deps arbitrary: st) (simp_all add: fix_dependency_peer)

lemma fix_dependency_dev:
  assumes "safeMode opts" "dep_type d = devDependency \<longrightarrow> dep_confidence d < 0.8"
  shows "devDependencies (fst (fix_dependency opts d st)) = devDependencies (fst st)"
  using assms by (cases st) (auto simp: fix_dependency_def skipped_dependency_def)

lemma fold_fix_dependency_dev:
  assumes "safeMode opts" "\<forall>d\<in>set deps. dep_type d = devDependency \<longrightarrow> dep_confidence d < 0.8"
  shows "devDependencies (fst (fold (fix_dependency opts) deps st)) = devDependencies (fst st)"
  using assms(2)
proof (induction deps arbitrary: st)
  case Nil
  show ?case by simp
next
  case (Cons d deps)
  then show ?case using fix_dependency_dev [OF assms(1), of d st] by simp
qed

lemma fix_dependency_removed:
  assumes "safeMode opts" "dep_type d = devDependency \<longrightarrow> dep_confidence d < 0.8"
  shows "set (dependenciesRemoved (snd (snd (fix_dependency opts d st))))
           \<subseteq> set (dependenciesRemoved (snd (snd st)))
              \<union> (if dep_type d = dependency then {dep_name d} else {})"
  using assms by (cases st) (auto simp: fix_dependency_def skipped_dependency_def)

lemma fold_fix_dependency_removed:
  assumes "safeMode opts" "\<forall>d\<in>set deps. dep_type d = devDependency \<longrightarrow> dep_confidence d < 0.8"
  shows "set (dependenciesRemoved (snd (snd (fold (fix_dependency opts) deps st))))
           \<subseteq> set (dependenciesRemoved (snd (snd st)))
              \<union> dep_name ` {d \<in> set deps. dep_type d = dependency}"
  using assms(2)
proof (induction deps arbitrary: st)
  case Nil
  show ?case by simp
next
  case (Cons d deps)
  have step: "set (dependenciesRemoved (snd (snd (fix_dependency opts d st))))
           \<subseteq> set (dependenciesRemoved (snd (snd st)))
              \<union> (if dep_type d = dependency then {dep_name d} else {})"
    using fix_dependency_removed [OF assms(1), of d st] Cons.prems by simp
  have rest: "set (dependenciesRemoved (snd (snd (fold (fix_dependency opts) deps (fix_dependency opts d st)))))
           \<subseteq> set (dependenciesRemoved (snd (snd (fix_dependency opts d st))))
              \<union> dep_name ` {d \<in> set deps. dep_type d = dependency}"
    using Cons.IH [of "fix_dependency opts d st"] Cons.prems by simp
  from step rest show ?case by (auto split: if_splits)
qed

text \<open>What the imports pass leaves alone.\<close>

lemma fix_import_dependenciesRemoved:
  "dependenciesRemoved (snd (snd (fix_import imp st))) = dependenciesRemoved (snd (snd st))"
  by (cases st) (simp add: fix_import_def Let_def)

lemma fold_fix_import_dependenciesRemoved:
  "dependenciesRemoved (snd (snd (fold fix_import imps st))) = dependenciesRemoved (snd (snd st))"
  by (induction imps arbitrary: st) (simp_all add: fix_import_dependenciesRemoved)

lemma fix_file_dependenciesRemoved:
  "dependenciesRemoved (snd (fix_file entry st)) = dependenciesRemoved (snd st)"
proof (cases entry; cases st)
  fix p imps fs fr
  assume e: "entry = (p, imps)" and s: "st = (fs, fr)"
  show ?thesis
  proof (cases "readFileSync fs p")
    case None
    then show ?thesis by (simp add: e s fix_file_def)
  next
    case (Some content)
    obtain lns modified fr' where
      f: "fold fix_import (sortedImports imps) (split newline content, False, fr) = (lns, modified, fr')"
      by (cases "fold fix_import (sortedImports imps) (split newline content, False, fr)") auto
    have "dependenciesRemoved fr' = dependenciesRemoved fr"
      using fold_fix_import_dependenciesRemoved
              [of "sortedImports imps" "(split newline content, False, fr)"] f by simp
    then show ?thesis
      by (simp add: e s fix_file_def Some f split: option.splits)
  qed
qed

lemma fixUnusedImports_dependenciesRemoved:
  "dependenciesRemoved (snd (fixUnusedImports opts result st)) = dependenciesRemoved (snd st)"
proof -
  have "dependenciesRemoved (snd (fold fix_file groups st)) = dependenciesRemoved (snd st)" for groups
    by (induction groups arbitrary: st) (simp_all add: fix_file_dependenciesRemoved)
  then show ?thesis by (simp add: fixUnusedImports_def)
qed

text \<open>The dependencies pass, case by case.\<close>

lemma fixUnusedDependencies_cases:
  assumes "fixUnusedDependencies opts parse stringify manifest result (fs, fr) = (fs', fr')"
  shows "(fs' = fs \<and> dependenciesRemoved fr' = dependenciesRemoved fr) \<or>
         (\<exists>content pj. readFileSync fs manifest = Some content \<and> parse content = Some pj \<and>
            dependenciesRemoved fr'
              = dependenciesRemoved (snd (snd (fold (fix_dependency opts) (unusedDependencies result)
                                                (pj, False, fr)))) \<and>
            (fs' = fs \<or>
             fs' = fs\<lparr>files := (files fs)(manifest \<mapsto>
                      stringify (fst (fold (fix_dependency opts) (unusedDependencies result)
                                       (pj, False, fr))) @ [newline])\<rparr>))"
proof (cases "readFileSync fs manifest")
  case None
  with assms show ?thesis by (auto simp: fixUnusedDependencies_def)
next
  case (Some content)
  show ?thesis
  proof (cases "parse content")
    case None
    with Some assms show ?thesis by (auto simp: fixUnusedDependencies_def)
  next
    case (Some pj)
    obtain pj' modified fr'' where
      f: "fold (fix_dependency opts) (unusedDependencies result) (pj, False, fr) = (pj', modified, fr'')"
      by (cases "fold (fix_dependency opts) (unusedDependencies result) (pj, False, fr)") auto
    from assms \<open>readFileSync fs manifest = Some content\<close> Some f show ?thesis
      by (auto simp: fixUnusedDependencies_def writeFileSync_def split: if_splits)
  qed
qed

lemma fixer_fix_after_imports:
  assumes "fixer_fix opts parse stringify manifest tests result fs = (fs', fr')"
    and "fixUnusedImports opts result (fs, fixResult0) = (fs1, fr1)"
  shows "(fs' = fs1 \<and> dependenciesRemoved fr' = []) \<or>
         (\<exists>content pj. readFileSync fs1 manifest = Some content \<and> parse content = Some pj \<and>
            dependenciesRemoved fr'
              = dependenciesRemoved (snd (snd (fold (fix_dependency opts) (unusedDependencies result)
                                                (pj, False, fr1)))) \<and>
            (fs' = fs1 \<or>
             fs' = fs1\<lparr>files := (files fs1)(manifest \<mapsto>
                      stringify (fst (fold (fix_dependency opts) (unusedDependencies result)
                                       (pj, False, fr1))) @ [newline])\<rparr>))"
proof -
  obtain fs2 fr2 where
    d: "fixUnusedDependencies opts parse stringify manifest result (fs1, fr1) = (fs2, fr2)"
    by (cases "fixUnusedDependencies opts parse stringify manifest result (fs1, fr1)") auto
  have r1: "dependenciesRemoved fr1 = []"
    using fixUnusedImports_dependenciesRemoved [of opts result "(fs, fixResult0)"] assms(2)
    by (simp add: fixResult0_def)
  have "fs' = fs2 \<and> dependenciesRemoved fr' = dependenciesRemoved fr2"
    using assms d by (auto simp: fixer_fix_def rollback_def Let_def split: if_splits)
  with fixUnusedDependencies_cases [OF d] r1 show ?thesis by auto
qed


lemma detect_findings:
  assumes "detect parse manifest allFiles fs = Inr r"
  shows "\<exists>content pj. readFileSync fs manifest = Some content \<and> parse content = Some pj \<and>
           (\<forall>d\<in>set r.
              (dep_type d = dependency \<and> dep_confidence d = 0.85 \<and>
               (dep_name d, dep_version d) \<in> set (or_empty (dependencies pj))) \<or>
              (dep_type d = devDependency \<and> dep_confidence d = 0.75 \<and>
               (dep_name d, dep_version d) \<in> set (or_empty (devDependencies pj))))"
proof -
  from detect_Inr [OF assms] obtain content and pj :: PackageJson where
    m: "readFileSync fs manifest = Some content" "parse content = Some pj" and
    r: "r = unused_in (scan_files fs allFiles) (or_empty (dependencies pj))
            @ unused_dev_in (scan_files fs allFiles) (or_empty (devDependencies pj))"
    by blast
  have "\<forall>d\<in>set r.
              (dep_type d = dependency \<and> dep_confidence d = 0.85 \<and>
               (dep_name d, dep_version d) \<in> set (or_empty (dependencies pj))) \<or>
              (dep_type d = devDependency \<and> dep_confidence d = 0.75 \<and>
               (dep_name d, dep_version d) \<in> set (or_empty (devDependencies pj)))"
    unfolding r
    by (auto simp: unused_in_def unused_dev_in_def dependency_finding_def devDependency_finding_def)
  with m show ?thesis by blast
qed

text \<open>
  Claim C10.  Every finding of \<^verbatim>\<open>detect\<close> is of the kind \<^verbatim>\<open>dependency\<close> or
  \<^verbatim>\<open>devDependency\<close>, never \<^verbatim>\<open>peerDependency\<close>, and is an entry of the manifest's
  map of that kind.  Whatever findings the fixer is given, the manifest it works on keeps
  its \<^verbatim>\<open>peerDependencies\<close> map: after \<^verbatim>\<open>fix\<close> the file system is the one the
  imports pass left, or that one with the manifest overwritten by the serialisation of
  a manifest with the same \<^verbatim>\<open>peerDependencies\<close> as the one that was read.
\<close>

theorem peer_dependencies_never_flagged_nor_removed:
  "(\<forall>r. detect parse manifest allFiles fs = Inr r \<longrightarrow>
      (\<forall>d\<in>set r. dep_type d \<noteq> peerDependency) \<and>
      (\<exists>content pj. readFileSync fs manifest = Some content \<and> parse content = Some pj \<and>
         (\<forall>d\<in>set r.
            (dep_type d = dependency \<and>
             (dep_name d, dep_version d) \<in> set (or_empty (dependencies pj))) \<or>
            (dep_type d = devDependency \<and>
             (dep_name d, dep_version d) \<in> set (or_empty (devDependencies pj))))))
   \<and> peerDependencies (fst (fold (fix_dependency opts) deps (pj0, m, fr))) = peerDependencies pj0
   \<and> (fst (fixer_fix opts parse stringify manifest tests result fs)
         = fst (fixUnusedImports opts result (fs, fixResult0)) \<or>
      (\<exists>content pj pj'.
         readFileSync (fst (fixUnusedImports opts result (fs, fixResult0))) manifest = Some content \<and>
         parse content = Some pj \<and> peerDependencies pj' = peerDependencies pj \<and>
         fst (fixer_fix opts parse stringify manifest tests result fs)
           = (fst (fixUnusedImports opts result (fs, fixResult0)))
               \<lparr>files := (files (fst (fixUnusedImports opts result (fs, fixResult0))))
                            (manifest \<mapsto> stringify pj' @ [newline])\<rparr>))"
proof (intro conjI allI impI)
  fix r
  assume d: "detect parse manifest allFiles fs = Inr r"
  from detect_findings [OF d] show "\<forall>d\<in>set r. dep_type d \<noteq> peerDependency"
    by auto
  from detect_findings [OF d] show "\<exists>content pj. readFileSync fs manifest = Some content \<and> parse content = Some pj \<and>
         (\<forall>d\<in>set r.
            (dep_type d = dependency \<and>
             (dep_name d, dep_version d) \<in> set (or_empty (dependencies pj))) \<or>
            (dep_type d = devDependency \<and>
             (dep_name d, dep_version d) \<in> set (or_empty (devDependencies pj))))"
    by blast
next
  show "peerDependencies (fst (fold (fix_dependency opts) deps (pj0, m, fr))) = peerDependencies pj0"
    using fold_fix_dependency_peer [of opts deps "(pj0, m, fr)"] by simp
next
  obtain fs' fr' where f: "fixer_fix opts parse stringify manifest tests result fs = (fs', fr')"
    by (cases "fixer_fix opts parse stringify manifest tests result fs") auto
  obtain fs1 fr1 where i: "fixUnusedImports opts result (fs, fixResult0) = (fs1, fr1)"
    by (cases "fixUnusedImports opts result (fs, fixResult0)") auto
  have main: "fs' = fs1 \<or>
      (\<exists>content pj pj'.
         readFileSync fs1 manifest = Some content \<and>
         parse content = Some pj \<and> peerDependencies pj' = peerDependencies pj \<and>
         fs' = fs1\<lparr>files := (files fs1)(manifest \<mapsto> stringify pj' @ [newline])\<rparr>)"
    using fixer_fix_after_imports [OF f i]
  proof (elim disjE exE conjE)
    assume "fs' = fs1"
    then show ?thesis by simp
  next
    fix content and pj :: PackageJson
    assume "fs' = fs1"
    then show ?thesis by simp
  next
    fix content and pj :: PackageJson
    let ?pj' = "fst (fold (fix_dependency opts) (unusedDependencies result) (pj, False, fr1))"
    assume a: "readFileSync fs1 manifest = Some content" "parse content = Some pj"
    assume w: "fs' = fs1\<lparr>files := (files fs1)(manifest \<mapsto> stringify ?pj' @ [newline])\<rparr>"
    have "peerDependencies ?pj' = peerDependencies pj"
      using fold_fix_dependency_peer [of opts "unusedDependencies result" "(pj, False, fr1)"] by simp
    with a w show ?thesis by blast
  qed
  show "fst (fixer_fix opts parse stringify manifest tests result fs)
         = fst (fixUnusedImports opts result (fs, fixResult0)) \<or>
      (\<exists>content pj pj'.
         readFileSync (fst (fixUnusedImports opts result (fs, fixResult0))) manifest = Some content \<and>
         parse content = Some pj \<and> peerDependencies pj' = peerDependencies pj \<and>
         fst (fixer_fix opts parse stringify manifest tests result fs)
           = (fst (fixUnusedImports opts result (fs, fixResult0)))
               \<lparr>files := (files (fst (fixUnusedImports opts result (fs, fixResult0))))
                            (manifest \<mapsto> stringify pj' @ [newline])\<rparr>)"
    unfolding f i fst_conv by (rule main)
qed

theorem peer_dependencies_never_flagged_nor_removed_witness:
  "detect (example_parse [peer_manifest]) ''package.json'' [''src/index.ts'', ''package.json'']
     peer_project = Inr [left_pad_finding]
   \<and> dep_type left_pad_finding \<noteq> peerDependency
   \<and> peerDependencies (fst (fold (fix_dependency (AutoFixer (Some False) None))
          [left_pad_finding, react_peer_finding] (peer_manifest, False, fixResult0)))
       = Some [(''react'', ''^18.0.0'')]
   \<and> files (fst (fixer_fix (AutoFixer (Some False) None) (example_parse [peer_manifest])
          example_stringify ''package.json'' runTests
          \<lparr>unusedImports = [], unusedDependencies = [left_pad_finding, react_peer_finding]\<rparr>
          peer_project)) ''package.json''
       = Some (example_stringify (peer_manifest\<lparr>dependencies := Some []\<rparr>) @ [newline])"
proof -
  note t = peer_dependencies_never_flagged_nor_removed
             [of "example_parse [peer_manifest]" "''package.json''"
                 "[''src/index.ts'', ''package.json'']" peer_project
                 "AutoFixer (Some False) None" "[left_pad_finding, react_peer_finding]"
                 peer_manifest False fixResult0]
  have d: "detect (example_parse [peer_manifest]) ''package.json''
             [''src/index.ts'', ''package.json''] peer_project = Inr [left_pad_finding]"
    by code_simp
  from t d have "\<forall>d\<in>set [left_pad_finding]. dep_type d \<noteq> peerDependency"
    by blast
  then have k: "dep_type left_pad_finding \<noteq> peerDependency"
    by simp
  from t have p: "peerDependencies (fst (fold (fix_dependency (AutoFixer (Some False) None))
          [left_pad_finding, react_peer_finding] (peer_manifest, False, fixResult0)))
       = Some [(''react'', ''^18.0.0'')]"
    by (simp add: peer_manifest_def)
  have w: "files (fst (fixer_fix (AutoFixer (Some False) None) (example_parse [peer_manifest])
          example_stringify ''package.json'' runTests
          \<lparr>unusedImports = [], unusedDependencies = [left_pad_finding, react_peer_finding]\<rparr>
          peer_project)) ''package.json''
       = Some (example_stringify (peer_manifest\<lparr>dependencies := Some []\<rparr>) @ [newline])"
    by code_simp
  from d k p w show ?thesis by blast
qed

text \<open>
  Claim C9, as stated, fails: a package declared both under \<^verbatim>\<open>dependencies\<close> and
  under \<^verbatim>\<open>devDependencies\<close> and imported nowhere is removed from
  \<^verbatim>\<open>dependencies\<close> in safe mode, and its name, which is a devDependency name, is
  recorded in \<^verbatim>\<open>dependenciesRemoved\<close>.
\<close>

theorem devDependency_name_in_dependenciesRemoved:
  "safeMode (AutoFixer None None)
   \<and> detect (example_parse [both_manifest]) ''package.json'' [''src/index.ts'', ''package.json'']
       both_project = Inr both_findings
   \<and> dependenciesRemoved (snd (fixer_fix (AutoFixer None None) (example_parse [both_manifest])
        example_stringify ''package.json'' runTests
        \<lparr>unusedImports = [], unusedDependencies = both_findings\<rparr> both_project)) = [''foo'']
   \<and> devDependencies both_manifest = Some [(''foo'', ''1.0.0'')]"
  by code_simp

text \<open>
  Claim C9, amended.  In safe mode, with the unused-dependency findings produced by
  \<^verbatim>\<open>detect\<close>: every devDependency finding carries the confidence 0.75; the
  \<^verbatim>\<open>devDependencies\<close> map of the manifest the fixer works on is kept (after
  \<^verbatim>\<open>fix\<close> the file system is the one the imports pass left, or that one with the
  manifest overwritten by the serialisation of a manifest with the same
  \<^verbatim>\<open>devDependencies\<close>); and every name in \<^verbatim>\<open>dependenciesRemoved\<close> is the name
  of a finding of the kind \<^verbatim>\<open>dependency\<close>.
\<close>

theorem safe_mode_keeps_devDependencies:
  "safeMode opts \<and> detect parse0 manifest0 allFiles fs0 = Inr (unusedDependencies result) \<longrightarrow>
     (\<forall>d\<in>set (unusedDependencies result). dep_type d = devDependency \<longrightarrow> dep_confidence d = 0.75)
   \<and> devDependencies (fst (fold (fix_dependency opts) (unusedDependencies result) (pj0, m, fr)))
       = devDependencies pj0
   \<and> set (dependenciesRemoved (snd (fixer_fix opts parse stringify manifest tests result fs)))
       \<subseteq> dep_name ` {d \<in> set (unusedDependencies result). dep_type d = dependency}
   \<and> (fst (fixer_fix opts parse stringify manifest tests result fs)
         = fst (fixUnusedImports opts result (fs, fixResult0)) \<or>
      (\<exists>content pj pj'.
         readFileSync (fst (fixUnusedImports opts result (fs, fixResult0))) manifest = Some content \<and>
         parse content = Some pj \<and> devDependencies pj' = devDependencies pj \<and>
         fst (fixer_fix opts parse stringify manifest tests result fs)
           = (fst (fixUnusedImports opts result (fs, fixResult0)))
               \<lparr>files := (files (fst (fixUnusedImports opts result (fs, fixResult0))))
                            (manifest \<mapsto> stringify pj' @ [newline])\<rparr>))"
proof (intro impI)
  assume h: "safeMode opts \<and> detect parse0 manifest0 allFiles fs0 = Inr (unusedDependencies result)"
  then have safe: "safeMode opts" and d: "detect parse0 manifest0 allFiles fs0 = Inr (unusedDependencies result)"
    by simp_all
  have conf: "\<forall>d\<in>set (unusedDependencies result). dep_type d = devDependency \<longrightarrow> dep_confidence d = 0.75"
    using detect_findings [OF d] by auto
  then have low: "\<forall>d\<in>set (unusedDependencies result). dep_type d = devDependency \<longrightarrow> dep_confidence d < 0.8"
    by auto
  have dev: "devDependencies (fst (fold (fix_dependency opts) (unusedDependencies result) st))
               = devDependencies (fst st)" for st
    using fold_fix_dependency_dev [OF safe low] by simp
  have rem: "set (dependenciesRemoved (snd (snd (fold (fix_dependency opts) (unusedDependencies result) st))))
           \<subseteq> set (dependenciesRemoved (snd (snd st)))
              \<union> dep_name ` {d \<in> set (unusedDependencies result). dep_type d = dependency}" for st
    using fold_fix_dependency_removed [OF safe low] by simp
  obtain fs' fr' where f: "fixer_fix opts parse stringify manifest tests result fs = (fs', fr')"
    by (cases "fixer_fix opts parse stringify manifest tests result fs") auto
  obtain fs1 fr1 where i: "fixUnusedImports opts result (fs, fixResult0) = (fs1, fr1)"
    by (cases "fixUnusedImports opts result (fs, fixResult0)") auto
  have r1: "dependenciesRemoved fr1 = []"
    using fixUnusedImports_dependenciesRemoved [of opts result "(fs, fixResult0)"] i
    by (simp add: fixResult0_def)
  have main: "set (dependenciesRemoved fr')
                \<subseteq> dep_name ` {d \<in> set (unusedDependencies result). dep_type d = dependency}
     \<and> (fs' = fs1 \<or>
      (\<exists>content pj pj'.
         readFileSync fs1 manifest = Some content \<and>
         parse content = Some pj \<and> devDependencies pj' = devDependencies pj \<and>
         fs' = fs1\<lparr>files := (files fs1)(manifest \<mapsto> stringify pj' @ [newline])\<rparr>))"
    using fixer_fix_after_imports [OF f i]
  proof (elim disjE exE conjE)
    assume "fs' = fs1" "dependenciesRemoved fr' = []"
    then show ?thesis by simp
  next
    fix content and pj :: PackageJson
    assume "fs' = fs1"
      and "dependenciesRemoved fr' = dependenciesRemoved (snd (snd (fold (fix_dependency opts)
              (unusedDependencies result) (pj, False, fr1))))"
    then show ?thesis using rem [of "(pj, False, fr1)"] r1 by simp
  next
    fix content and pj :: PackageJson
    let ?pj' = "fst (fold (fix_dependency opts) (unusedDependencies result) (pj, False, fr1))"
    assume a: "readFileSync fs1 manifest = Some content" "parse content = Some pj"
    assume w: "fs' = fs1\<lparr>files := (files fs1)(manifest \<mapsto> stringify ?pj' @ [newline])\<rparr>"
    assume e: "dependenciesRemoved fr' = dependenciesRemoved (snd (snd (fold (fix_dependency opts)
              (unusedDependencies result) (pj, False, fr1))))"
    have "devDependencies ?pj' = devDependencies pj"
      using dev [of "(pj, False, fr1)"] by simp
    with a w have "\<exists>content pj pj'.
         readFileSync fs1 manifest = Some content \<and>
         parse content = Some pj \<and> devDependencies pj' = devDependencies pj \<and>
         fs' = fs1\<lparr>files := (files fs1)(manifest \<mapsto> stringify pj' @ [newline])\<rparr>"
      by blast
    then show ?thesis using rem [of "(pj, False, fr1)"] r1 e by simp
  qed
  show "(\<forall>d\<in>set (unusedDependencies result). dep_type d = devDependency \<longrightarrow> dep_confidence d = 0.75)
   \<and> devDependencies (fst (fold (fix_dependency opts) (unusedDependencies result) (pj0, m, fr)))
       = devDependencies pj0
   \<and> set (dependenciesRemoved (snd (fixer_fix opts parse stringify manifest tests result fs)))
       \<subseteq> dep_name ` {d \<in> set (unusedDependencies result). dep_type d = dependency}
   \<and> (fst (fixer_fix opts parse stringify manifest tests result fs)
         = fst (fixUnusedImports opts result (fs, fixResult0)) \<or>
      (\<exists>content pj pj'.
         readFileSync (fst (fixUnusedImports opts result (fs, fixResult0))) manifest = Some content \<and>
         parse content = Some pj \<and> devDependencies pj' = devDependencies pj \<and>
         fst (fixer_fix opts parse stringify manifest tests result fs)
           = (fst (fixUnusedImports opts result (fs, fixResult0)))
               \<lparr>files := (files (fst (fixUnusedImports opts result (fs, fixResult0))))
                            (manifest \<mapsto> stringify pj' @ [newline])\<rparr>))"
    unfolding f i fst_conv snd_conv using conf dev [of "(pj0, m, fr)"] main by simp
qed

theorem safe_mode_keeps_devDependencies_witness:
  "devDependencies (fst (fold (fix_dependency (AutoFixer None None)) both_findings
      (both_manifest, False, fixResult0))) = Some [(''foo'', ''1.0.0'')]
   \<and> set (dependenciesRemoved (snd (fixer_fix (AutoFixer None None) (example_parse [both_manifest])
        example_stringify ''package.json'' runTests
        \<lparr>unusedImports = [], unusedDependencies = both_findings\<rparr> both_project)))
       \<subseteq> dep_name ` {d \<in> set both_findings. dep_type d = dependency}
   \<and> files (fst (fixer_fix (AutoFixer None None) (example_parse [both_manifest])
        example_stringify ''package.json'' runTests
        \<lparr>unusedImports = [], unusedDependencies = both_findings\<rparr> both_project)) ''package.json''
       = Some (example_stringify (both_manifest\<lparr>dependencies := Some []\<rparr>) @ [newline])"
proof -
  have safe: "safeMode (AutoFixer None None)"
    by (simp add: AutoFixer_def)
  have d: "detect (example_parse [both_manifest]) ''package.json''
             [''src/index.ts'', ''package.json''] both_project
           = Inr (unusedDependencies \<lparr>unusedImports = [], unusedDependencies = both_findings\<rparr>)"
    by code_simp
  note t = safe_mode_keeps_devDependencies
             [of "AutoFixer None None" "example_parse [both_manifest]" "''package.json''"
                 "[''src/index.ts'', ''package.json'']" both_project
                 "\<lparr>unusedImports = [], unusedDependencies = both_findings\<rparr>"
                 both_manifest False fixResult0 "example_parse [both_manifest]" example_stringify
                 "''package.json''" runTests both_project]
  from t safe d have a: "devDependencies (fst (fold (fix_dependency (AutoFixer None None)) both_findings
      (both_manifest, False, fixResult0))) = Some [(''foo'', ''1.0.0'')]"
    by (simp add: both_manifest_def)
  from t safe d have b: "set (dependenciesRemoved (snd (fixer_fix (AutoFixer None None)
        (example_parse [both_manifest]) example_stringify ''package.json'' runTests
        \<lparr>unusedImports = [], unusedDependencies = both_findings\<rparr> both_project)))
       \<subseteq> dep_name ` {d \<in> set both_findings. dep_type d = dependency}"
    by simp
  have c: "files (fst (fixer_fix (AutoFixer None None) (example_parse [both_manifest])
        example_stringify ''package.json'' runTests
        \<lparr>unusedImports = [], unusedDependencies = both_findings\<rparr> both_project)) ''package.json''
       = Some (example_stringify (both_manifest\<lparr>dependencies := Some []\<rparr>) @ [newline])"
    by code_simp
  from a b c show ?thesis by blast
qed

subsection \<open>The imports pass\<close>

lemma groupByFile_snoc:
  "groupByFile opts (imps @ [imp]) = group_import opts imp (groupByFile opts imps)"
  by (simp add: groupByFile_def)

lemma distinct_groupByFile: "distinct (map fst (groupByFile opts imps))"
proof (induction imps rule: rev_induct)
  case Nil
  show ?case by (simp add: groupByFile_def)
next
  case (snoc imp imps)
  then show ?case
    by (simp add: groupByFile_snoc group_import_def Let_def distinct_update)
qed

lemma map_of_groupByFile:
  "map_of (groupByFile opts imps) p =
     (let l = filter (\<lambda>i. filePath i = p \<and> \<not> skipped_import opts i) imps
      in if l = [] then None else Some l)"
proof (induction imps rule: rev_induct)
  case Nil
  show ?case by (simp add: groupByFile_def)
next
  case (snoc imp imps)
  then show ?case
    by (auto simp: groupByFile_snoc group_import_def Let_def update_conv' split: option.splits if_splits)
qed

lemma groupByFile_entry:
  assumes "(p, imps) \<in> set (groupByFile opts findings)"
  shows "imps = filter (\<lambda>i. filePath i = p \<and> \<not> skipped_import opts i) findings"
proof -
  have "map_of (groupByFile opts findings) p = Some imps"
    using assms distinct_groupByFile [of opts findings] by simp
  then show ?thesis
    by (simp add: map_of_groupByFile Let_def split: if_splits)
qed

lemma sortedImports_descending: "sorted_wrt (\<lambda>a b. line b \<le> line a) (sortedImports imps)"
proof -
  have "sorted (map (\<lambda>imp. - line imp) (sortedImports imps))"
    by (simp add: sortedImports_def)
  then show ?thesis
    by (simp add: sorted_wrt_map)
qed

lemma sortedImports_stable:
  "filter (\<lambda>i. line i = k) (sortedImports imps) = filter (\<lambda>i. line i = k) imps"
proof -
  have "filter (\<lambda>i. - line i = - k) (sort_key (\<lambda>imp. - line imp) imps)
          = filter (\<lambda>i. - line i = - k) imps"
    by (rule sort_key_stable)
  then show ?thesis by (simp add: sortedImports_def)
qed

lemma fix_import_sole:
  assumes "0 < line imp" "nat (line imp - 1) < length lns"
    and "sole_import_line (lns ! nat (line imp - 1)) imp"
  shows "fix_import imp (lns, m, fr)
           = (splice1 (nat (line imp - 1)) lns, True, fr\<lparr>importsRemoved := importsRemoved fr + 1\<rparr>)"
proof -
  have "0 \<le> line imp - 1" "line imp - 1 < int (length lns)"
    using assms(1,2) by linarith+
  with assms(3) show ?thesis
    by (simp add: fix_import_def sole_import_line_def Let_def)
qed

lemma fix_file_modified:
  assumes "files fs p = Some content" "\<not> locked fs p"
    and "fold fix_import (sortedImports imps) (split newline content, False, fr) = (lns, True, fr')"
  shows "fix_file (p, imps) (fs, fr)
           = (fs\<lparr>files := (files fs)(p \<mapsto> join [newline] lns)\<rparr>,
              fr'\<lparr>filesModified := filesModified fr' @ [p]\<rparr>)"
  using assms by (simp add: fix_file_def readFileSync_def writeFileSync_def)

lemma groupByFile_one_file:
  assumes "\<forall>i\<in>set (imp # imps). filePath i = p \<and> \<not> skipped_import opts i"
  shows "groupByFile opts (imp # imps) = [(p, imp # imps)]"
proof -
  have "fold (group_import opts) xs [(p, acc)] = [(p, acc @ xs)]"
    if "\<forall>i\<in>set xs. filePath i = p \<and> \<not> skipped_import opts i" for xs acc
    using that by (induction xs arbitrary: acc) (simp_all add: group_import_def)
  from this [of imps "[imp]"] assms show ?thesis
    by (simp add: groupByFile_def group_import_def)
qed


lemma splice1_nth_before: "i < j \<Longrightarrow> j < length xs \<Longrightarrow> splice1 j xs ! i = xs ! i"
  by (simp add: splice1_def nth_append)

lemma splice1_twice:
  "7 \<le> length xs \<Longrightarrow> splice1 2 (splice1 6 xs) = take 2 xs @ take 3 (drop 3 xs) @ drop 7 xs"
  by (simp add: splice1_def drop_take)

lemma two_sole_imports:
  fixes i3 i7 :: UnusedImport
  assumes f: "files fs p = Some content" "\<not> locked fs p"
    and len: "7 \<le> length (split newline content)"
    and i3: "filePath i3 = p" "line i3 = 3" "\<not> skipped_import opts i3"
            "sole_import_line (split newline content ! 2) i3"
    and i7: "filePath i7 = p" "line i7 = 7" "\<not> skipped_import opts i7"
            "sole_import_line (split newline content ! 6) i7"
    and r: "unusedImports result = [i3, i7] \<or> unusedImports result = [i7, i3]"
  shows "sortedImports (unusedImports result) = [i7, i3]"
    and "fix_import i7 (split newline content, False, fr)
           = (splice1 6 (split newline content), True, fr\<lparr>importsRemoved := importsRemoved fr + 1\<rparr>)"
    and "fixUnusedImports opts result (fs, fr)
           = (fs\<lparr>files := (files fs)(p \<mapsto> join [newline]
                  (take 2 (split newline content) @ take 3 (drop 3 (split newline content))
                   @ drop 7 (split newline content)))\<rparr>,
              fr\<lparr>importsRemoved := importsRemoved fr + 2, filesModified := filesModified fr @ [p]\<rparr>)"
proof -
  let ?lns = "split newline content"
  show s: "sortedImports (unusedImports result) = [i7, i3]"
    using r i3(2) i7(2) by (auto simp: sortedImports_def)
  show s7: "fix_import i7 (?lns, False, fr)
           = (splice1 6 ?lns, True, fr\<lparr>importsRemoved := importsRemoved fr + 1\<rparr>)"
    using fix_import_sole [of i7 ?lns False fr] i7 len by simp
  have "splice1 6 ?lns ! 2 = ?lns ! 2"
    using splice1_nth_before [of 2 6 ?lns] len by simp
  then have s3: "fix_import i3 (splice1 6 ?lns, True, fr\<lparr>importsRemoved := importsRemoved fr + 1\<rparr>)
           = (splice1 2 (splice1 6 ?lns), True, fr\<lparr>importsRemoved := importsRemoved fr + 2\<rparr>)"
    using fix_import_sole [of i3 "splice1 6 ?lns" True "fr\<lparr>importsRemoved := importsRemoved fr + 1\<rparr>"]
          i3 len by (simp add: splice1_def)
  have fold: "fold fix_import (sortedImports (unusedImports result)) (?lns, False, fr)
           = (splice1 2 (splice1 6 ?lns), True, fr\<lparr>importsRemoved := importsRemoved fr + 2\<rparr>)"
    unfolding s by (simp only: fold.simps o_apply id_apply s7 s3)
  have g: "groupByFile opts (unusedImports result) = [(p, unusedImports result)]"
    using r
  proof
    assume e: "unusedImports result = [i3, i7]"
    show ?thesis unfolding e using groupByFile_one_file [of i3 "[i7]" p opts] i3 i7 by simp
  next
    assume e: "unusedImports result = [i7, i3]"
    show ?thesis unfolding e using groupByFile_one_file [of i7 "[i3]" p opts] i3 i7 by simp
  qed
  show "fixUnusedImports opts result (fs, fr)
           = (fs\<lparr>files := (files fs)(p \<mapsto> join [newline]
                  (take 2 ?lns @ take 3 (drop 3 ?lns) @ drop 7 ?lns))\<rparr>,
              fr\<lparr>importsRemoved := importsRemoved fr + 2, filesModified := filesModified fr @ [p]\<rparr>)"
    using fix_file_modified [OF f fold] splice1_twice [OF len]
    by (simp add: fixUnusedImports_def g)
qed


text \<open>
  Claim C4, as stated, fails: two findings of a file can have the same line number (the
  two names of \<^verbatim>\<open>import { a, b } from 'x'\<close>), and then the order in which they are
  applied is not strictly descending.
\<close>

theorem same_line_findings_not_strictly_descending:
  "groupByFile (AutoFixer None None) [tie_a, tie_b] = [(''src/d.ts'', [tie_a, tie_b])]
   \<and> sortedImports [tie_a, tie_b] = [tie_a, tie_b]
   \<and> map line (sortedImports [tie_a, tie_b]) = [1, 1]
   \<and> \<not> sorted_wrt (\<lambda>a b. line b < line a) (sortedImports [tie_a, tie_b])"
  by code_simp

text \<open>
  Claim C4, amended.  The findings the fixer applies to a file are the findings of that
  file that are not skipped, and it applies them in descending order of their line
  numbers, those of one line in the order of the detection output.  For a file that can
  be read and written, with two sole-import findings on lines 3 and 7, in either
  order: the finding of line 7 is applied first and removes that line; after the pass
  the file is the original without its lines 3 and 7, \<^verbatim>\<open>importsRemoved\<close> has grown
  by 2 and the file is recorded as modified.
\<close>

theorem imports_applied_in_descending_line_order:
  "(\<forall>p imps. (p, imps) \<in> set (groupByFile opts findings) \<longrightarrow>
      imps = filter (\<lambda>i. filePath i = p \<and> \<not> skipped_import opts i) findings
      \<and> sorted_wrt (\<lambda>a b. line b \<le> line a) (sortedImports imps)
      \<and> (\<forall>k. filter (\<lambda>i. line i = k) (sortedImports imps) = filter (\<lambda>i. line i = k) imps))
   \<and> (files fs p = Some content \<and> \<not> locked fs p \<and> 7 \<le> length (split newline content)
      \<and> filePath i3 = p \<and> line i3 = 3 \<and> \<not> skipped_import opts i3
      \<and> sole_import_line (split newline content ! 2) i3
      \<and> filePath i7 = p \<and> line i7 = 7 \<and> \<not> skipped_import opts i7
      \<and> sole_import_line (split newline content ! 6) i7
      \<and> (unusedImports result = [i3, i7] \<or> unusedImports result = [i7, i3])
      \<longrightarrow>
        sortedImports (unusedImports result) = [i7, i3]
        \<and> fix_import i7 (split newline content, False, fr)
            = (splice1 6 (split newline content), True,
               fr\<lparr>importsRemoved := importsRemoved fr + 1\<rparr>)
        \<and> fixUnusedImports opts result (fs, fr)
            = (fs\<lparr>files := (files fs)(p \<mapsto> join [newline]
                   (take 2 (split newline content) @ take 3 (drop 3 (split newline content))
                    @ drop 7 (split newline content)))\<rparr>,
               fr\<lparr>importsRemoved := importsRemoved fr + 2,
                  filesModified := filesModified fr @ [p]\<rparr>))"
proof (intro conjI allI impI)
  fix q imps
  assume g: "(q, imps) \<in> set (groupByFile opts findings)"
  show "imps = filter (\<lambda>i. filePath i = q \<and> \<not> skipped_import opts i) findings"
    by (rule groupByFile_entry [OF g])
  show "sorted_wrt (\<lambda>a b. line b \<le> line a) (sortedImports imps)"
    by (rule sortedImports_descending)
  show "filter (\<lambda>i. line i = k) (sortedImports imps) = filter (\<lambda>i. line i = k) imps" for k
    by (rule sortedImports_stable)
next
  assume h: "files fs p = Some content \<and> \<not> locked fs p \<and> 7 \<le> length (split newline content)
      \<and> filePath i3 = p \<and> line i3 = 3 \<and> \<not> skipped_import opts i3
      \<and> sole_import_line (split newline content ! 2) i3
      \<and> filePath i7 = p \<and> line i7 = 7 \<and> \<not> skipped_import opts i7
      \<and> sole_import_line (split newline content ! 6) i7
      \<and> (unusedImports result = [i3, i7] \<or> unusedImports result = [i7, i3])"
  show "sortedImports (unusedImports result) = [i7, i3]"
    by (rule two_sole_imports(1) [of fs p content i3 opts i7]) (use h in auto)
  show "fix_import i7 (split newline content, False, fr)
            = (splice1 6 (split newline content), True,
               fr\<lparr>importsRemoved := importsRemoved fr + 1\<rparr>)"
    by (rule two_sole_imports(2) [of fs p content i3 opts i7 result]) (use h in auto)
  show "fixUnusedImports opts result (fs, fr)
            = (fs\<lparr>files := (files fs)(p \<mapsto> join [newline]
                   (take 2 (split newline content) @ take 3 (drop 3 (split newline content))
                    @ drop 7 (split newline content)))\<rparr>,
               fr\<lparr>importsRemoved := importsRemoved fr + 2,
                  filesModified := filesModified fr @ [p]\<rparr>)"
    by (rule two_sole_imports(3) [of fs p content i3 opts i7]) (use h in auto)
qed

theorem imports_applied_in_descending_line_order_witness:
  "sortedImports [finding_3, finding_7] = [finding_7, finding_3]
   \<and> files (fst (fixUnusedImports (AutoFixer None None)
         \<lparr>unusedImports = [finding_3, finding_7], unusedDependencies = []\<rparr>
         (lines_project, fixResult0))) ''src/c.ts'' = Some (join [newline] c_ts_fixed)
   \<and> importsRemoved (snd (fixUnusedImports (AutoFixer None None)
         \<lparr>unusedImports = [finding_3, finding_7], unusedDependencies = []\<rparr>
         (lines_project, fixResult0))) = 2
   \<and> filesModified (snd (fixUnusedImports (AutoFixer None None)
         \<lparr>unusedImports = [finding_3, finding_7], unusedDependencies = []\<rparr>
         (lines_project, fixResult0))) = [''src/c.ts'']"
proof -
  let ?content = "join [newline] c_ts_lines"
  have sp: "split newline ?content = c_ts_lines"
    by code_simp
  have h1: "files lines_project ''src/c.ts'' = Some ?content"
    by (simp add: lines_project_def)
  have h2: "\<not> locked lines_project ''src/c.ts''"
    by (simp add: lines_project_def no_locks_def)
  have h3: "7 \<le> length (split newline ?content)"
    unfolding sp by (simp add: c_ts_lines_def)
  have h4: "filePath finding_3 = ''src/c.ts'' \<and> line finding_3 = 3
            \<and> \<not> skipped_import (AutoFixer None None) finding_3"
    by (simp add: finding_3_def skipped_import_def)
  have h5: "sole_import_line (split newline ?content ! 2) finding_3"
    unfolding sp by code_simp
  have h6: "filePath finding_7 = ''src/c.ts'' \<and> line finding_7 = 7
            \<and> \<not> skipped_import (AutoFixer None None) finding_7"
    by (simp add: finding_7_def skipped_import_def)
  have h7: "sole_import_line (split newline ?content ! 6) finding_7"
    unfolding sp by code_simp
  have h8: "unusedImports \<lparr>unusedImports = [finding_3, finding_7], unusedDependencies = []\<rparr>
              = [finding_3, finding_7]"
    by simp
  note t = imports_applied_in_descending_line_order
             [of "AutoFixer None None" "[]" lines_project "''src/c.ts''" ?content finding_3
                 finding_7 "\<lparr>unusedImports = [finding_3, finding_7], unusedDependencies = []\<rparr>"
                 fixResult0]
  from t h1 h2 h3 h4 h5 h6 h7 h8
  have r: "sortedImports [finding_3, finding_7] = [finding_7, finding_3]
        \<and> fixUnusedImports (AutoFixer None None)
            \<lparr>unusedImports = [finding_3, finding_7], unusedDependencies = []\<rparr>
            (lines_project, fixResult0)
            = (lines_project\<lparr>files := (files lines_project)(''src/c.ts'' \<mapsto> join [newline]
                   (take 2 (split newline ?content) @ take 3 (drop 3 (split newline ?content))
                    @ drop 7 (split newline ?content)))\<rparr>,
               fixResult0\<lparr>importsRemoved := importsRemoved fixResult0 + 2,
                  filesModified := filesModified fixResult0 @ [''src/c.ts'']\<rparr>)"
    by simp
  have j: "take 2 c_ts_lines @ take 3 (drop 3 c_ts_lines) @ drop 7 c_ts_lines = c_ts_fixed"
    by (simp add: c_ts_lines_def c_ts_fixed_def)
  from r show ?thesis
    unfolding sp j by (simp add: fixResult0_def)
qed

subsection \<open>Verification and rollback\<close>

text \<open>
  Claim C1, on the code.  Two files are modified and the test runner reports a failure:
  the result has \<^verbatim>\<open>success = false\<close> and the error \<^verbatim>\<open>Tests failed after cleanup\<close>,
  and both files keep their modified content, since \<^verbatim>\<open>rollback\<close> restores nothing.
\<close>

theorem failed_tests_leave_files_modified:
  "snd (fixer_fix (AutoFixer None (Some True)) (example_parse [left_pad_manifest])
          example_stringify ''package.json'' tests_fail
          \<lparr>unusedImports = [finding_a, finding_b], unusedDependencies = []\<rparr> unused_project)
     = \<lparr>success = False, filesModified = [''src/a.ts'', ''src/b.ts''], importsRemoved = 2,
        dependenciesRemoved = [], errors = [''Tests failed after cleanup'']\<rparr>
   \<and> files unused_project ''src/a.ts'' = Some a_ts
   \<and> files (fst (fixer_fix (AutoFixer None (Some True)) (example_parse [left_pad_manifest])
          example_stringify ''package.json'' tests_fail
          \<lparr>unusedImports = [finding_a, finding_b], unusedDependencies = []\<rparr> unused_project))
        ''src/a.ts'' = Some ''console.log(1);''
   \<and> a_ts \<noteq> ''console.log(1);''
   \<and> files unused_project ''src/b.ts'' = Some b_ts
   \<and> files (fst (fixer_fix (AutoFixer None (Some True)) (example_parse [left_pad_manifest])
          example_stringify ''package.json'' tests_fail
          \<lparr>unusedImports = [finding_a, finding_b], unusedDependencies = []\<rparr> unused_project))
        ''src/b.ts'' = Some ''export const x = 1;''
   \<and> b_ts \<noteq> ''export const x = 1;''"
  by code_simp

section \<open>Properties of the symbol model and the import resolver\<close>

text \<open>
  The names the traversal collects are names of \<open>Identifier\<close> nodes of the tree, those
  inside type annotations and decorators included; the import entries are those of the
  import declarations of the tree.
\<close>

lemma fold_specifier_identifiers:
  "fold (\<lambda>sp. fold (identifier_visitor SpecifierParent) (specifier_identifiers sp)) specs a = a"
proof -
  have inner: "fold (identifier_visitor SpecifierParent) ns b = b" for ns b
    by (induction ns arbitrary: b) simp_all
  show ?thesis by (induction specs arbitrary: a) (simp_all add: inner)
qed

lemma set_identifier_names_simps:
  "set (identifier_names (Identifier n ch)) = insert n (\<Union>x\<in>set ch. set (identifier_names x))"
  "set (identifier_names (JSXIdentifier n)) = {}"
  "set (identifier_names (ImportDeclaration specs src ch)) = (\<Union>x\<in>set ch. set (identifier_names x))"
  "set (identifier_names (ObjectProperty k v c ch)) =
     set (identifier_names k) \<union> set (identifier_names v) \<union> (\<Union>x\<in>set ch. set (identifier_names x))"
  "set (identifier_names (MemberExpression ob pr c)) = set (identifier_names ob) \<union> set (identifier_names pr)"
  "set (identifier_names (JSXElement ch)) = (\<Union>x\<in>set ch. set (identifier_names x))"
  "set (identifier_names (JSXFragment ch)) = (\<Union>x\<in>set ch. set (identifier_names x))"
  "set (identifier_names (Node ty ch)) = (\<Union>x\<in>set ch. set (identifier_names x))"
  by (auto simp: identifier_names_def)

lemma identifier_visitor_used:
  "set (usedIdentifiers (identifier_visitor par n a)) \<subseteq> insert n (set (usedIdentifiers a)) \<and>
   set (usedIdentifiers a) \<subseteq> set (usedIdentifiers (identifier_visitor par n a))"
  by (cases par) (auto simp: set_add_def)

lemma fold_traverse_bounds:
  assumes "\<And>x par a. x \<in> set xs \<Longrightarrow>
             set (usedIdentifiers a) \<subseteq> set (usedIdentifiers (traverse par x a)) \<and>
             set (usedIdentifiers (traverse par x a))
               \<subseteq> set (usedIdentifiers a) \<union> set (identifier_names x)"
  shows "set (usedIdentifiers a) \<subseteq> set (usedIdentifiers (fold (traverse OtherParent) xs a)) \<and>
         set (usedIdentifiers (fold (traverse OtherParent) xs a))
           \<subseteq> set (usedIdentifiers a) \<union> (\<Union>x\<in>set xs. set (identifier_names x))"
  using assms
proof (induction xs arbitrary: a)
  case Nil
  show ?case by simp
next
  case (Cons x xs)
  have hd: "set (usedIdentifiers a) \<subseteq> set (usedIdentifiers (traverse OtherParent x a)) \<and>
            set (usedIdentifiers (traverse OtherParent x a))
              \<subseteq> set (usedIdentifiers a) \<union> set (identifier_names x)"
    using Cons.prems [of x a OtherParent] by simp
  have tl: "set (usedIdentifiers (traverse OtherParent x a))
              \<subseteq> set (usedIdentifiers (fold (traverse OtherParent) xs (traverse OtherParent x a))) \<and>
            set (usedIdentifiers (fold (traverse OtherParent) xs (traverse OtherParent x a)))
              \<subseteq> set (usedIdentifiers (traverse OtherParent x a))
                 \<union> (\<Union>x\<in>set xs. set (identifier_names x))"
    using Cons.IH [of "traverse OtherParent x a"] Cons.prems by simp
  from hd tl show ?case by auto
qed

lemma traverse_bounds:
  "set (usedIdentifiers a) \<subseteq> set (usedIdentifiers (traverse par n a)) \<and>
   set (usedIdentifiers (traverse par n a)) \<subseteq> set (usedIdentifiers a) \<union> set (identifier_names n)"
proof (induction n arbitrary: par a)
  case (Identifier x ch)
  show ?case
    using identifier_visitor_used [of par x a]
          fold_traverse_bounds [of ch "identifier_visitor par x a"] Identifier.IH
    by (auto simp: set_identifier_names_simps)
next
  case (JSXIdentifier x)
  show ?case by simp
next
  case (ImportDeclaration specs src ch)
  show ?case
    using fold_traverse_bounds
            [of ch "a\<lparr>importInfos := importInfos a @ concat (map (import_info src) specs)\<rparr>"]
          ImportDeclaration.IH
    by (simp add: fold_specifier_identifiers set_identifier_names_simps)
next
  case (ObjectProperty k v c ch)
  let ?a1 = "traverse (PropertyKeyOf c) k a"
  let ?a2 = "traverse OtherParent v ?a1"
  show ?case
    using ObjectProperty.IH(1) [of a "PropertyKeyOf c"]
          ObjectProperty.IH(2) [of ?a1 OtherParent]
          fold_traverse_bounds [of ch ?a2] ObjectProperty.IH(3)
    by (auto simp: set_identifier_names_simps)
next
  case (MemberExpression ob pr c)
  show ?case
    using MemberExpression.IH(1) [of a OtherParent]
          MemberExpression.IH(2) [of "traverse OtherParent ob a" OtherParent]
    by (auto simp: set_identifier_names_simps)
next
  case (JSXElement ch)
  show ?case
    using fold_traverse_bounds [of ch "a\<lparr>hasJSX := True\<rparr>"] JSXElement.IH
    by (simp add: set_identifier_names_simps)
next
  case (JSXFragment ch)
  show ?case
    using fold_traverse_bounds [of ch "a\<lparr>hasJSX := True\<rparr>"] JSXFragment.IH
    by (simp add: set_identifier_names_simps)
next
  case (Node ty ch)
  show ?case
    using fold_traverse_bounds [of ch a] Node.IH
    by (simp add: set_identifier_names_simps)
qed

lemma traverse_mono: "set (usedIdentifiers a) \<subseteq> set (usedIdentifiers (traverse par n a))"
  using traverse_bounds by blast

lemma fold_traverse_mono:
  "set (usedIdentifiers a) \<subseteq> set (usedIdentifiers (fold (traverse OtherParent) xs a))"
  using fold_traverse_bounds [of xs a] traverse_bounds by blast

lemma used_are_identifier_names:
  "set (usedIdentifiers (traverse OtherParent ast analysis0)) \<subseteq> set (identifier_names ast)"
  using traverse_bounds [of analysis0 OtherParent ast] by (simp add: analysis0_def)

lemma concat_map_concat:
  "concat (map f (concat xss)) = concat (map (\<lambda>xs. concat (map f xs)) xss)"
  by (induction xss) simp_all

lemma declared_imports_simps:
  "declared_imports (Identifier n ch) = concat (map declared_imports ch)"
  "declared_imports (JSXIdentifier n) = []"
  "declared_imports (ImportDeclaration specs src ch)
     = concat (map (import_info src) specs) @ concat (map declared_imports ch)"
  "declared_imports (ObjectProperty k v c ch)
     = declared_imports k @ declared_imports v @ concat (map declared_imports ch)"
  "declared_imports (MemberExpression ob pr c) = declared_imports ob @ declared_imports pr"
  "declared_imports (JSXElement ch) = concat (map declared_imports ch)"
  "declared_imports (JSXFragment ch) = concat (map declared_imports ch)"
  "declared_imports (Node ty ch) = concat (map declared_imports ch)"
  by (simp_all add: declared_imports_def [abs_def] concat_map_concat comp_def)

lemma identifier_visitor_imports: "importInfos (identifier_visitor par n a) = importInfos a"
  by (cases par) simp_all

lemma fold_traverse_imports:
  assumes "\<And>x par a. x \<in> set xs \<Longrightarrow> importInfos (traverse par x a) = importInfos a @ declared_imports x"
  shows "importInfos (fold (traverse OtherParent) xs a)
           = importInfos a @ concat (map declared_imports xs)"
  using assms
proof (induction xs arbitrary: a)
  case Nil
  show ?case by simp
next
  case (Cons x xs)
  have "importInfos (traverse OtherParent x a) = importInfos a @ declared_imports x"
    using Cons.prems by simp
  moreover have "importInfos (fold (traverse OtherParent) xs (traverse OtherParent x a))
           = importInfos (traverse OtherParent x a) @ concat (map declared_imports xs)"
    using Cons.IH Cons.prems by simp
  ultimately show ?case by simp
qed

lemma traverse_imports:
  "importInfos (traverse par n a) = importInfos a @ declared_imports n"
proof (induction n arbitrary: par a)
  case (Identifier x ch)
  show ?case
    using fold_traverse_imports [of ch "identifier_visitor par x a"] Identifier.IH
    by (simp add: identifier_visitor_imports declared_imports_simps)
next
  case (JSXIdentifier x)
  show ?case by (simp add: declared_imports_simps)
next
  case (ImportDeclaration specs src ch)
  show ?case
    using fold_traverse_imports
            [of ch "a\<lparr>importInfos := importInfos a @ concat (map (import_info src) specs)\<rparr>"]
          ImportDeclaration.IH
    by (simp add: fold_specifier_identifiers declared_imports_simps)
next
  case (ObjectProperty k v c ch)
  show ?case
    using fold_traverse_imports [of ch "traverse OtherParent v (traverse (PropertyKeyOf c) k a)"]
          ObjectProperty.IH
    by (simp add: declared_imports_simps)
next
  case (MemberExpression ob pr c)
  then show ?case by (simp add: declared_imports_simps)
next
  case (JSXElement ch)
  show ?case
    using fold_traverse_imports [of ch "a\<lparr>hasJSX := True\<rparr>"] JSXElement.IH
    by (simp add: declared_imports_simps)
next
  case (JSXFragment ch)
  show ?case
    using fold_traverse_imports [of ch "a\<lparr>hasJSX := True\<rparr>"] JSXFragment.IH
    by (simp add: declared_imports_simps)
next
  case (Node ty ch)
  show ?case
    using fold_traverse_imports [of ch a] Node.IH
    by (simp add: declared_imports_simps)
qed

lemma no_import_declaration:
  assumes "\<forall>specs src attrs. ImportDeclaration specs src attrs \<notin> set (subnodes ast)"
  shows "declared_imports ast = []"
proof -
  have "node_imports m = []" if "m \<in> set (subnodes ast)" for m
    by (cases m) (use that assms in auto)
  then show ?thesis by (simp add: declared_imports_def)
qed

lemma findUnusedImports_parsed:
  assumes "readFileSync fs p = Some code" "parse_ast babel code p = Some ast"
  shows "findUnusedImports babel fs p
           = map (unused_import p)
               (filter (\<lambda>imp. \<not> isUsed (traverse OtherParent ast analysis0) imp)
                  (declared_imports ast))"
  using assms traverse_imports [of OtherParent ast analysis0]
  by (simp add: findUnusedImports_def parseFile_def parseCode_def analysis0_def)


lemma fold_traverse_reaches:
  assumes "x \<in> set xs" "\<And>a. N \<in> set (usedIdentifiers (traverse OtherParent x a))"
  shows "N \<in> set (usedIdentifiers (fold (traverse OtherParent) xs a))"
  using assms(1)
proof (induction xs arbitrary: a)
  case Nil
  then show ?case by simp
next
  case (Cons y ys)
  show ?case
  proof (cases "y = x")
    case True
    then show ?thesis
      using assms(2) [of a] fold_traverse_mono [of "traverse OtherParent x a" ys] by auto
  next
    case False
    then show ?thesis using Cons by auto
  qed
qed

lemma member_access_collected:
  "MemberExpression (Identifier N ts) pr c \<in> set (subnodes n) \<Longrightarrow>
     N \<in> set (usedIdentifiers (traverse par n a))"
proof (induction n arbitrary: par a)
  case (Identifier x ch)
  then obtain y where "y \<in> set ch" "MemberExpression (Identifier N ts) pr c \<in> set (subnodes y)"
    by auto
  then show ?case
    using fold_traverse_reaches [of y ch N] Identifier.IH by simp
next
  case (JSXIdentifier x)
  then show ?case by simp
next
  case (ImportDeclaration specs src ch)
  then obtain y where "y \<in> set ch" "MemberExpression (Identifier N ts) pr c \<in> set (subnodes y)"
    by auto
  then show ?case
    using fold_traverse_reaches [of y ch N] ImportDeclaration.IH by simp
next
  case (ObjectProperty k v c' ch)
  let ?a1 = "traverse (PropertyKeyOf c') k a"
  let ?a2 = "traverse OtherParent v ?a1"
  from ObjectProperty.prems
  consider (key) "MemberExpression (Identifier N ts) pr c \<in> set (subnodes k)"
    | (val) "MemberExpression (Identifier N ts) pr c \<in> set (subnodes v)"
    | (dec) y where "y \<in> set ch" "MemberExpression (Identifier N ts) pr c \<in> set (subnodes y)"
    by auto
  then show ?case
  proof cases
    case key
    then have "N \<in> set (usedIdentifiers ?a1)"
      using ObjectProperty.IH(1) by blast
    then show ?thesis
      using traverse_mono [of ?a1 OtherParent v] fold_traverse_mono [of ?a2 ch] by auto
  next
    case val
    then have "N \<in> set (usedIdentifiers ?a2)"
      using ObjectProperty.IH(2) by blast
    then show ?thesis
      using fold_traverse_mono [of ?a2 ch] by auto
  next
    case dec
    then show ?thesis
      using fold_traverse_reaches [of y ch N] ObjectProperty.IH(3) by simp
  qed
next
  case (MemberExpression ob pr' c')
  from MemberExpression.prems
  consider (here) "ob = Identifier N ts"
    | (left) "MemberExpression (Identifier N ts) pr c \<in> set (subnodes ob)"
    | (right) "MemberExpression (Identifier N ts) pr c \<in> set (subnodes pr')"
    by auto
  then show ?case
  proof cases
    case here
    have "N \<in> set (usedIdentifiers (identifier_visitor OtherParent N a))"
      by (simp add: set_add_def)
    then have "N \<in> set (usedIdentifiers (traverse OtherParent ob a))"
      using here fold_traverse_mono [of "identifier_visitor OtherParent N a" ts] by auto
    then show ?thesis
      using traverse_mono [of "traverse OtherParent ob a" OtherParent pr'] by auto
  next
    case left
    then show ?thesis
      using MemberExpression.IH(1) [of OtherParent a]
            traverse_mono [of "traverse OtherParent ob a" OtherParent pr'] by auto
  next
    case right
    then show ?thesis using MemberExpression.IH(2) by auto
  qed
next
  case (JSXElement ch)
  then obtain x where "x \<in> set ch" "MemberExpression (Identifier N ts) pr c \<in> set (subnodes x)"
    by auto
  then show ?case
    using fold_traverse_reaches [of x ch N] JSXElement.IH by simp
next
  case (JSXFragment ch)
  then obtain x where "x \<in> set ch" "MemberExpression (Identifier N ts) pr c \<in> set (subnodes x)"
    by auto
  then show ?case
    using fold_traverse_reaches [of x ch N] JSXFragment.IH by simp
next
  case (Node ty ch)
  then obtain x where "x \<in> set ch" "MemberExpression (Identifier N ts) pr c \<in> set (subnodes x)"
    by auto
  then show ?case
    using fold_traverse_reaches [of x ch N] Node.IH by simp
qed

lemma has_member_access_collected:
  assumes "has_member_access N ast"
  shows "N \<in> set (usedIdentifiers (traverse par ast a))"
proof -
  from assms obtain m where m: "m \<in> set (subnodes ast)" "member_access_on N m"
    by (auto simp: has_member_access_def list_ex_iff)
  from m(2) obtain ts pr c where "m = MemberExpression (Identifier N ts) pr c"
    by (induction N m rule: member_access_on.induct) auto
  with m(1) show ?thesis using member_access_collected by blast
qed

lemma import_declaration_declares:
  "ImportDeclaration specs src attrs \<in> set (subnodes ast) \<Longrightarrow>
     set (concat (map (import_info src) specs)) \<subseteq> set (declared_imports ast)"
  by (force simp: declared_imports_def)

lemma dot_prefix: "startsWith e (N @ ''.'') \<Longrightarrow> CHR ''.'' \<in> set e"
proof -
  assume "startsWith e (N @ ''.'')"
  then have "take (length N + 1) e = N @ ''.''"
    by (simp add: startsWith_def)
  then have "CHR ''.'' \<in> set (take (length N + 1) e)"
    by simp
  then show ?thesis by (meson in_set_takeD)
qed

lemma no_compound_entry:
  assumes "\<forall>n\<in>set (identifier_names ast). CHR ''.'' \<notin> set n"
  shows "\<not> list_ex (\<lambda>e. startsWith e (N @ ''.'')) (usedIdentifiers (traverse OtherParent ast analysis0))"
proof
  assume "list_ex (\<lambda>e. startsWith e (N @ ''.'')) (usedIdentifiers (traverse OtherParent ast analysis0))"
  then obtain e where e: "e \<in> set (usedIdentifiers (traverse OtherParent ast analysis0))"
      "startsWith e (N @ ''.'')"
    by (auto simp: list_ex_iff)
  from e(1) have "e \<in> set (identifier_names ast)"
    using used_are_identifier_names by blast
  with assms dot_prefix [OF e(2)] show False by blast
qed

lemma member_expression_on_namespace_import:
  assumes "readFileSync fs p = Some code" "parse_ast babel code p = Some ast"
    and "ImportDeclaration specs src attrs \<in> set (subnodes ast)"
    and "ImportNamespaceSpecifier N loc \<in> set specs" "N \<noteq> []"
  shows "has_member_access N ast \<Longrightarrow> \<forall>f\<in>set (findUnusedImports babel fs p). importName f \<noteq> N"
    and "N \<noteq> ''React'' \<Longrightarrow> N \<notin> set (identifier_names ast) \<Longrightarrow>
         \<forall>n\<in>set (identifier_names ast). CHR ''.'' \<notin> set n \<Longrightarrow>
           \<lparr>filePath = p,
            line = (case loc of None \<Rightarrow> 0 | Some (l, c) \<Rightarrow> l),
            column = (case loc of None \<Rightarrow> 0 | Some (l, c) \<Rightarrow> c),
            importName = N, source = src, confidence = 0.95\<rparr>
           \<in> set (findUnusedImports babel fs p)"
proof -
  let ?a = "traverse OtherParent ast analysis0"
  have fu: "findUnusedImports babel fs p
              = map (unused_import p) (filter (\<lambda>imp. \<not> isUsed ?a imp) (declared_imports ast))"
    using assms(1,2) findUnusedImports_parsed by blast
  {
    assume m: "has_member_access N ast"
    have "N \<in> set (usedIdentifiers ?a)"
      by (rule has_member_access_collected [OF m])
    then have "isUsed ?a imp" if "imp_name imp = N" for imp :: ImportInfo
      using that by (simp add: isUsed_def)
    then show "\<forall>f\<in>set (findUnusedImports babel fs p). importName f \<noteq> N"
      unfolding fu by (auto simp: unused_import_def)
  }
  {
    assume u: "N \<noteq> ''React''" "N \<notin> set (identifier_names ast)"
      "\<forall>n\<in>set (identifier_names ast). CHR ''.'' \<notin> set n"
    let ?imp = "\<lparr>imp_name = N, imp_source = src,
          imp_line = (case loc of None \<Rightarrow> 0 | Some (l, c) \<Rightarrow> l),
          imp_column = (case loc of None \<Rightarrow> 0 | Some (l, c) \<Rightarrow> c),
          isDefault = False, isNamespace = True\<rparr>"
    have "import_info src (ImportNamespaceSpecifier N loc) = [?imp]"
      using assms(5) by (simp add: import_info_def)
    then have "?imp \<in> set (concat (map (import_info src) specs))"
      using assms(4) by force
    then have d: "?imp \<in> set (declared_imports ast)"
      using assms(3) import_declaration_declares [of specs src attrs ast] by blast
    have "N \<notin> set (usedIdentifiers ?a)"
      using u used_are_identifier_names [of ast] by blast
    moreover have "\<not> list_ex (\<lambda>e. startsWith e (N @ ''.'')) (usedIdentifiers ?a)"
      using u no_compound_entry by blast
    ultimately have "\<not> isUsed ?a ?imp"
      using u by (simp add: isUsed_def)
    with d have "unused_import p ?imp \<in> set (findUnusedImports babel fs p)"
      unfolding fu by auto
    then show "\<lparr>filePath = p,
            line = (case loc of None \<Rightarrow> 0 | Some (l, c) \<Rightarrow> l),
            column = (case loc of None \<Rightarrow> 0 | Some (l, c) \<Rightarrow> c),
            importName = N, source = src, confidence = 0.95\<rparr>
           \<in> set (findUnusedImports babel fs p)"
      by (simp add: unused_import_def)
  }
qed

lemma namespace_import_examples:
  "findUnusedImports utils_babel utils_project ''src/u.ts'' = []
   \<and> findUnusedImports utils_babel utils_project ''src/v.ts''
       = [\<lparr>filePath = ''src/v.ts'', line = 1, column = 7, importName = ''utils'',
           source = ''./utils'', confidence = 0.95\<rparr>]"
  by code_simp

text \<open>
  Claim C2, on the code.  For the file \<^verbatim>\<open>import * as utils from './utils'\<close>,
  \<^verbatim>\<open>utils.format(1)\<close> the collected names are \<^verbatim>\<open>utils\<close> and \<^verbatim>\<open>format\<close>, one
  entry for each identifier node: no entry starts with \<^verbatim>\<open>utils.\<close>, so the prefix
  scan of \<^verbatim>\<open>findUnusedImports\<close> over the collected names finds nothing to match.
\<close>

theorem member_access_not_stored_as_compound:
  "readFileSync utils_project ''src/u.ts'' = Some u_ts
   \<and> has_member_access ''utils'' u_ast
   \<and> parseCode utils_babel u_ts ''src/u.ts''
       = Some \<lparr>importInfos = [\<lparr>imp_name = ''utils'', imp_source = ''./utils'', imp_line = 1,
                  imp_column = 7, isDefault = False, isNamespace = True\<rparr>],
               usedIdentifiers = [''utils'', ''format''], hasJSX = False\<rparr>
   \<and> \<not> startsWith ''utils'' ''utils.'' \<and> \<not> startsWith ''format'' ''utils.''"
  by code_simp

text \<open>
  Claim C3, on the code.  For the file \<^verbatim>\<open>import * as utils from './utils'\<close>,
  \<^verbatim>\<open>const b = <utils.Button />\<close> the member access on \<^verbatim>\<open>utils\<close> is made of JSX
  identifiers, which the identifier visitor does not see: the only collected name is
  \<^verbatim>\<open>b\<close>, nothing starts with \<^verbatim>\<open>utils.\<close>, and \<^verbatim>\<open>findUnusedImports\<close> reports the
  import although the file refers to it.
\<close>

theorem jsx_member_access_import_flagged:
  "readFileSync utils_project ''src/w.tsx'' = Some w_tsx
   \<and> has_jsx_member_access ''utils'' w_ast
   \<and> parseCode utils_babel w_tsx ''src/w.tsx''
       = Some \<lparr>importInfos = [\<lparr>imp_name = ''utils'', imp_source = ''./utils'', imp_line = 1,
                  imp_column = 7, isDefault = False, isNamespace = True\<rparr>],
               usedIdentifiers = [''b''], hasJSX = True\<rparr>
   \<and> findUnusedImports utils_babel utils_project ''src/w.tsx''
       = [\<lparr>filePath = ''src/w.tsx'', line = 1, column = 7, importName = ''utils'',
           source = ''./utils'', confidence = 0.95\<rparr>]"
  by code_simp

section \<open>Detection, fix, detection again\<close>

lemma fix_dependency_importsRemoved:
  "importsRemoved (snd (snd (fix_dependency opts d st))) = importsRemoved (snd (snd st))"
  by (cases st) (simp add: fix_dependency_def)

lemma fold_fix_dependency_importsRemoved:
  "importsRemoved (snd (snd (fold (fix_dependency opts) deps st))) = importsRemoved (snd (snd st))"
  by (induction deps arbitrary: st) (simp_all add: fix_dependency_importsRemoved)

lemma fixUnusedDependencies_frame:
  assumes "p \<noteq> manifest"
  shows "files (fst (fixUnusedDependencies opts parse stringify manifest result (fs, fr))) p = files fs p
         \<and> importsRemoved (snd (fixUnusedDependencies opts parse stringify manifest result (fs, fr)))
             = importsRemoved fr"
proof (cases "readFileSync fs manifest")
  case None
  then show ?thesis by (simp add: fixUnusedDependencies_def)
next
  case (Some content)
  show ?thesis
  proof (cases "parse content")
    case None
    with Some show ?thesis by (simp add: fixUnusedDependencies_def)
  next
    case (Some pj)
    obtain pj' modified fr' where
      f: "fold (fix_dependency opts) (unusedDependencies result) (pj, False, fr) = (pj', modified, fr')"
      by (cases "fold (fix_dependency opts) (unusedDependencies result) (pj, False, fr)") auto
    have "importsRemoved fr' = importsRemoved fr"
      using fold_fix_dependency_importsRemoved [of opts "unusedDependencies result" "(pj, False, fr)"] f
      by simp
    with \<open>readFileSync fs manifest = Some content\<close> Some f assms show ?thesis
      by (simp add: fixUnusedDependencies_def writeFileSync_def)
  qed
qed

lemma fixer_fix_frame:
  assumes "p \<noteq> manifest"
  shows "files (fst (fixer_fix opts parse stringify manifest tests result fs)) p
           = files (fst (fixUnusedImports opts result (fs, fixResult0))) p
         \<and> importsRemoved (snd (fixer_fix opts parse stringify manifest tests result fs))
           = importsRemoved (snd (fixUnusedImports opts result (fs, fixResult0)))"
proof -
  obtain fs1 fr1 where i: "fixUnusedImports opts result (fs, fixResult0) = (fs1, fr1)"
    by (cases "fixUnusedImports opts result (fs, fixResult0)") auto
  obtain fs2 fr2 where
    d: "fixUnusedDependencies opts parse stringify manifest result (fs1, fr1) = (fs2, fr2)"
    by (cases "fixUnusedDependencies opts parse stringify manifest result (fs1, fr1)") auto
  have "files fs2 p = files fs1 p \<and> importsRemoved fr2 = importsRemoved fr1"
    using fixUnusedDependencies_frame [OF assms, of opts parse stringify result fs1 fr1] d by simp
  then show ?thesis
    by (simp add: fixer_fix_def i d rollback_def Let_def)
qed

lemma one_sole_import:
  fixes f :: UnusedImport
  assumes "files fs p = Some content" "\<not> locked fs p"
    and "filePath f = p" "\<not> skipped_import opts f"
    and "0 < line f" "nat (line f) \<le> length (split newline content)"
    and "sole_import_line (split newline content ! nat (line f - 1)) f"
    and "unusedImports result = [f]"
  shows "fixUnusedImports opts result (fs, fr)
           = (fs\<lparr>files := (files fs)(p \<mapsto> join [newline]
                  (splice1 (nat (line f - 1)) (split newline content)))\<rparr>,
              fr\<lparr>importsRemoved := importsRemoved fr + 1, filesModified := filesModified fr @ [p]\<rparr>)"
proof -
  let ?lns = "split newline content"
  have idx: "nat (line f - 1) < length ?lns"
    using assms(5,6) by linarith
  have step: "fix_import f (?lns, False, fr)
           = (splice1 (nat (line f - 1)) ?lns, True, fr\<lparr>importsRemoved := importsRemoved fr + 1\<rparr>)"
    by (rule fix_import_sole [OF assms(5) idx assms(7)])
  have fold: "fold fix_import (sortedImports (unusedImports result)) (?lns, False, fr)
           = (splice1 (nat (line f - 1)) ?lns, True, fr\<lparr>importsRemoved := importsRemoved fr + 1\<rparr>)"
    unfolding assms(8) by (simp add: sortedImports_def step)
  have g: "groupByFile opts (unusedImports result) = [(p, unusedImports result)]"
    unfolding assms(8) using groupByFile_one_file [of f "[]" p opts] assms(3,4) by simp
  show ?thesis
    using fix_file_modified [OF assms(1,2) fold]
    by (simp add: fixUnusedImports_def g)
qed

lemma findUnusedImports_same_file:
  "files fs1 p = files fs2 p \<Longrightarrow> findUnusedImports babel fs1 p = findUnusedImports babel fs2 p"
  by (simp add: findUnusedImports_def parseFile_def readFileSync_def)

lemma findUnusedImports_without_imports:
  assumes "readFileSync fs p = Some code"
    and "\<forall>ast. parse_ast babel code p = Some ast \<longrightarrow>
           (\<forall>specs src attrs. ImportDeclaration specs src attrs \<notin> set (subnodes ast))"
  shows "findUnusedImports babel fs p = []"
proof (cases "parse_ast babel code p")
  case None
  with assms(1) show ?thesis
    by (simp add: findUnusedImports_def parseFile_def parseCode_def)
next
  case (Some ast)
  then have "declared_imports ast = []"
    using assms(2) no_import_declaration by blast
  then show ?thesis
    using findUnusedImports_parsed [OF assms(1) Some] by simp
qed


lemma replaced_line:
  "replaceAll rx_doubled_comma '','' (replaceFirst ''unused'' [] (pkg_import_line @ rest))
     = ''import  from '' @ CHR 0x27 # ''pkg'' @ CHR 0x27 #
         concat (map (seg_text '','') (rsegs rx_doubled_comma (Some (CHR 0x27)) 0 rest))"
  by (simp add: pkg_import_line_def startsWith_def replaceAll_def rx_doubled_comma_def)

lemma sole_pkg_import_line:
  fixes f :: UnusedImport
  assumes "importName f = ''unused''" "source f = ''pkg''"
  shows "sole_import_line (pkg_import_line @ rest) f"
proof -
  have a: "includes_str (pkg_import_line @ rest) ''unused''"
    by (simp add: pkg_import_line_def startsWith_def)
  have b: "includes_str (pkg_import_line @ rest) ''pkg''"
    by (simp add: pkg_import_line_def startsWith_def)
  have c: "rtest rx_empty_import (''import  from '' @ t)" for t
    by (simp add: rtest_def rx_empty_import_def lit_def whitespace_def record_char_def)
  have "isOnlyImportOnLine (pkg_import_line @ rest) ''unused''"
    unfolding isOnlyImportOnLine_def Let_def replaced_line using c by simp
  with a b show ?thesis by (simp add: sole_import_line_def assms)
qed

text \<open>
  Claim C5.  A file that can be read and written (and is not the manifest) parses to a
  tree whose only import entry is the default import \<^verbatim>\<open>unused\<close> from \<^verbatim>\<open>pkg\<close> on
  line \<open>k\<close>; no identifier node of the tree, inside type annotations and decorators
  included, is named \<^verbatim>\<open>unused\<close>; and line \<open>k\<close> of the text begins with
  \<^verbatim>\<open>import unused from 'pkg'\<close>.  Then detection yields the one finding for it;
  \<^verbatim>\<open>fix\<close> on the detection output writes the file without that line and reports
  \<^verbatim>\<open>importsRemoved = 1\<close>; and, the parser finding no import declaration in the text
  without the line, detection on the fixed file yields no finding.
\<close>

theorem sole_unused_import_round_trip:
  "files fs p = Some content \<and> \<not> locked fs p \<and> p \<noteq> manifest
   \<and> parse_ast babel content p = Some ast
   \<and> declared_imports ast
       = [\<lparr>imp_name = ''unused'', imp_source = ''pkg'', imp_line = k, imp_column = c,
           isDefault = True, isNamespace = False\<rparr>]
   \<and> ''unused'' \<notin> set (identifier_names ast)
   \<and> 0 < k \<and> nat k \<le> length (split newline content)
   \<and> startsWith (split newline content ! nat (k - 1)) pkg_import_line
   \<and> (\<forall>ast'. parse_ast babel (join [newline] (splice1 (nat (k - 1)) (split newline content))) p
                = Some ast'
              \<longrightarrow> (\<forall>specs src attrs. ImportDeclaration specs src attrs \<notin> set (subnodes ast')))
   \<and> unusedImports result = findUnusedImports babel fs p
   \<longrightarrow>
     findUnusedImports babel fs p
       = [\<lparr>filePath = p, line = k, column = c, importName = ''unused'', source = ''pkg'',
           confidence = 0.95\<rparr>]
   \<and> files (fst (fixer_fix opts parse stringify manifest tests result fs)) p
       = Some (join [newline] (splice1 (nat (k - 1)) (split newline content)))
   \<and> importsRemoved (snd (fixer_fix opts parse stringify manifest tests result fs)) = 1
   \<and> findUnusedImports babel (fst (fixer_fix opts parse stringify manifest tests result fs)) p = []"
proof (intro impI)
  assume h: "files fs p = Some content \<and> \<not> locked fs p \<and> p \<noteq> manifest
   \<and> parse_ast babel content p = Some ast
   \<and> declared_imports ast
       = [\<lparr>imp_name = ''unused'', imp_source = ''pkg'', imp_line = k, imp_column = c,
           isDefault = True, isNamespace = False\<rparr>]
   \<and> ''unused'' \<notin> set (identifier_names ast)
   \<and> 0 < k \<and> nat k \<le> length (split newline content)
   \<and> startsWith (split newline content ! nat (k - 1)) pkg_import_line
   \<and> (\<forall>ast'. parse_ast babel (join [newline] (splice1 (nat (k - 1)) (split newline content))) p
                = Some ast'
              \<longrightarrow> (\<forall>specs src attrs. ImportDeclaration specs src attrs \<notin> set (subnodes ast')))
   \<and> unusedImports result = findUnusedImports babel fs p"
  let ?f = "\<lparr>filePath = p, line = k, column = c, importName = ''unused'', source = ''pkg'',
           confidence = 0.95\<rparr>"
  let ?fixed = "join [newline] (splice1 (nat (k - 1)) (split newline content))"
  let ?a = "traverse OtherParent ast analysis0"
  let ?txt = "split newline content ! nat (k - 1)"
  have "''unused'' \<notin> set (usedIdentifiers ?a)"
    using h used_are_identifier_names [of ast] by blast
  then have "\<not> isUsed ?a \<lparr>imp_name = ''unused'', imp_source = ''pkg'', imp_line = k, imp_column = c,
           isDefault = True, isNamespace = False\<rparr>"
    by (simp add: isUsed_def)
  then have det: "findUnusedImports babel fs p = [?f]"
    using h findUnusedImports_parsed [of fs p content babel ast]
    by (simp add: readFileSync_def unused_import_def)
  have "?txt = pkg_import_line @ drop (length pkg_import_line) ?txt"
    using h append_take_drop_id [of "length pkg_import_line" ?txt] by (simp add: startsWith_def)
  then have "sole_import_line ?txt ?f"
    using sole_pkg_import_line [of ?f "drop (length pkg_import_line) ?txt"] by simp
  then have sole: "sole_import_line (split newline content ! nat (line ?f - 1)) ?f"
    by simp
  have pass: "fixUnusedImports opts result (fs, fixResult0)
           = (fs\<lparr>files := (files fs)(p \<mapsto> ?fixed)\<rparr>,
              fixResult0\<lparr>importsRemoved := importsRemoved fixResult0 + 1,
                         filesModified := filesModified fixResult0 @ [p]\<rparr>)"
    using one_sole_import [of fs p content ?f opts result fixResult0] h det sole
    by (simp add: skipped_import_def)
  have frame: "files (fst (fixer_fix opts parse stringify manifest tests result fs)) p = Some ?fixed
      \<and> importsRemoved (snd (fixer_fix opts parse stringify manifest tests result fs)) = 1"
    using h fixer_fix_frame [of p manifest opts parse stringify tests result fs] pass
    by (simp add: fixResult0_def)
  have again: "findUnusedImports babel (fst (fixer_fix opts parse stringify manifest tests result fs)) p = []"
    using findUnusedImports_without_imports
            [of "fst (fixer_fix opts parse stringify manifest tests result fs)" p ?fixed babel]
          h frame
    by (simp add: readFileSync_def)
  from det frame again show "findUnusedImports babel fs p = [?f]
   \<and> files (fst (fixer_fix opts parse stringify manifest tests result fs)) p = Some ?fixed
   \<and> importsRemoved (snd (fixer_fix opts parse stringify manifest tests result fs)) = 1
   \<and> findUnusedImports babel (fst (fixer_fix opts parse stringify manifest tests result fs)) p = []"
    by simp
qed

theorem sole_unused_import_round_trip_witness:
  "findUnusedImports a_babel unused_project ''src/a.ts'' = [finding_a]
   \<and> files (fst (fixer_fix (AutoFixer None None) (example_parse [left_pad_manifest])
         example_stringify ''package.json'' runTests
         \<lparr>unusedImports = findUnusedImports a_babel unused_project ''src/a.ts'',
          unusedDependencies = []\<rparr> unused_project)) ''src/a.ts'' = Some ''console.log(1);''
   \<and> importsRemoved (snd (fixer_fix (AutoFixer None None) (example_parse [left_pad_manifest])
         example_stringify ''package.json'' runTests
         \<lparr>unusedImports = findUnusedImports a_babel unused_project ''src/a.ts'',
          unusedDependencies = []\<rparr> unused_project)) = 1
   \<and> findUnusedImports a_babel
        (fst (fixer_fix (AutoFixer None None) (example_parse [left_pad_manifest])
         example_stringify ''package.json'' runTests
         \<lparr>unusedImports = findUnusedImports a_babel unused_project ''src/a.ts'',
          unusedDependencies = []\<rparr> unused_project)) ''src/a.ts'' = []"
proof -
  let ?result = "\<lparr>unusedImports = findUnusedImports a_babel unused_project ''src/a.ts'',
          unusedDependencies = []\<rparr>"
  have h1: "files unused_project ''src/a.ts'' = Some a_ts \<and> \<not> locked unused_project ''src/a.ts''
            \<and> ''src/a.ts'' \<noteq> ''package.json''"
    by (simp add: unused_project_def no_locks_def)
  have h2: "parse_ast a_babel a_ts ''src/a.ts'' = Some a_ast"
    by (simp add: parse_ast_def a_babel_def)
  have h3: "declared_imports a_ast
       = [\<lparr>imp_name = ''unused'', imp_source = ''pkg'', imp_line = 1, imp_column = 7,
           isDefault = True, isNamespace = False\<rparr>]"
    by code_simp
  have h4: "''unused'' \<notin> set (identifier_names a_ast)"
    by code_simp
  have h5: "(0::int) < 1 \<and> nat 1 \<le> length (split newline a_ts)
            \<and> startsWith (split newline a_ts ! nat (1 - 1)) pkg_import_line"
    by code_simp
  have e1: "join [newline] (splice1 (nat (1 - 1)) (split newline a_ts)) = ''console.log(1);''"
    by code_simp
  have e2: "parse_ast a_babel ''console.log(1);'' ''src/a.ts'' = Some a_fixed_ast"
    by code_simp
  have e3: "\<forall>specs src attrs. ImportDeclaration specs src attrs \<notin> set (subnodes a_fixed_ast)"
    by (simp add: a_fixed_ast_def call_statement_def)
  have h6: "\<forall>ast'. parse_ast a_babel (join [newline] (splice1 (nat (1 - 1)) (split newline a_ts)))
                    ''src/a.ts'' = Some ast'
              \<longrightarrow> (\<forall>specs src attrs. ImportDeclaration specs src attrs \<notin> set (subnodes ast'))"
    unfolding e1 e2 using e3 by simp
  have h7: "unusedImports ?result = findUnusedImports a_babel unused_project ''src/a.ts''"
    by simp
  note t = sole_unused_import_round_trip
             [of unused_project "''src/a.ts''" a_ts "''package.json''" a_babel a_ast 1 7 ?result
                 "AutoFixer None None" "example_parse [left_pad_manifest]" example_stringify runTests]
  from t h1 h2 h3 h4 h5 h6 h7
  have r: "findUnusedImports a_babel unused_project ''src/a.ts''
       = [\<lparr>filePath = ''src/a.ts'', line = 1, column = 7, importName = ''unused'', source = ''pkg'',
           confidence = 0.95\<rparr>]
   \<and> files (fst (fixer_fix (AutoFixer None None) (example_parse [left_pad_manifest])
         example_stringify ''package.json'' runTests ?result unused_project)) ''src/a.ts''
       = Some (join [newline] (splice1 (nat (1 - 1)) (split newline a_ts)))
   \<and> importsRemoved (snd (fixer_fix (AutoFixer None None) (example_parse [left_pad_manifest])
         example_stringify ''package.json'' runTests ?result unused_project)) = 1
   \<and> findUnusedImports a_babel
        (fst (fixer_fix (AutoFixer None None) (example_parse [left_pad_manifest])
         example_stringify ''package.json'' runTests ?result unused_project)) ''src/a.ts'' = []"
    by blast
  from r have d: "findUnusedImports a_babel unused_project ''src/a.ts''
                    = [finding_a]"
    by (simp add: finding_a_def)
  show ?thesis
    using r d unfolding e1 by blast
qed

end
